theory Spec2Isabelle
  imports Main "HOL-Library.Multiset" "HOL-Library.Sublist"
begin

section \<open>Strings and digits\<close>

text \<open>
  A JavaScript string is modelled as a \<^typ>\<open>string\<close>, one \<^typ>\<open>char\<close> per code unit
  (code units above 255 have no \<^typ>\<open>char\<close>; like every other non-digit they are
  only counted or removed by the code modelled here).
  The class \<^verbatim>\<open>\d\<close> of a JavaScript regular expression is the ten ASCII digits, and
  \<^verbatim>\<open>\D\<close> is every other code unit.
\<close>

definition isDigit :: "char \<Rightarrow> bool" where
  "isDigit c = (c \<in> set ''0123456789'')"

text \<open>\<^verbatim>\<open>s.replace(/\D/g, '')\<close>: every non-digit is removed, the digits keep their order.\<close>

definition removeNonDigits :: "string \<Rightarrow> string" where
  "removeNonDigits s = filter isDigit s"

text \<open>\<^verbatim>\<open>parseInt(c)\<close> on a one-character string that is a digit.\<close>

definition parseInt :: "char \<Rightarrow> int" where
  "parseInt c = int (of_char c) - 48"

text \<open>\<^verbatim>\<open>s.slice(a, b)\<close> and \<^verbatim>\<open>s.slice(a)\<close> for indices \<open>0 \<le> a \<le> b\<close>.\<close>

definition slice :: "string \<Rightarrow> nat \<Rightarrow> nat \<Rightarrow> string" where
  "slice s a b = take (b - a) (drop a s)"

definition sliceFrom :: "string \<Rightarrow> nat \<Rightarrow> string" where
  "sliceFrom s a = drop a s"

section \<open>CPF validation (routers.ts and Home.tsx, the same text in both)\<close>

text \<open>
  The regular expression \<^verbatim>\<open>/^(\d)\1+$/\<close>: a digit followed, up to the end of the
  string, by one or more copies of itself.
\<close>

definition repeatedDigit :: "string \<Rightarrow> bool" where
  "repeatedDigit s =
     (case s of [] \<Rightarrow> False
      | c # cs \<Rightarrow> isDigit c \<and> cs \<noteq> [] \<and> list_all (\<lambda>x. x = c) cs)"

text \<open>
  The loop \<^verbatim>\<open>for (let i = 0; i < n; i++) sum += parseInt(cleanCPF[i]) * (w - i)\<close>,
  entered at index \<open>i\<close> with the running sum \<open>acc\<close>.
\<close>

function weightedSum :: "string \<Rightarrow> int \<Rightarrow> nat \<Rightarrow> nat \<Rightarrow> int \<Rightarrow> int" where
  "weightedSum cleanCPF w n i acc =
     (if i < n then weightedSum cleanCPF w n (Suc i) (acc + parseInt (cleanCPF ! i) * (w - int i))
      else acc)"
  by pat_completeness auto
termination
  by (relation "measure (\<lambda>(cleanCPF, w, n, i, acc). n - i)") auto

declare weightedSum.simps [simp del]

definition checkDigit :: "int \<Rightarrow> int" where
  "checkDigit s =
     (let remainder = (s * 10) mod 11
      in if remainder = 10 \<or> remainder = 11 then 0 else remainder)"

definition isValidCPF :: "string \<Rightarrow> bool" where
  "isValidCPF cpf =
     (let cleanCPF = removeNonDigits cpf in
      if length cleanCPF \<noteq> 11 then False
      else if repeatedDigit cleanCPF then False
      else if checkDigit (weightedSum cleanCPF 10 9 0 0) \<noteq> parseInt (cleanCPF ! 9) then False
      else if checkDigit (weightedSum cleanCPF 11 10 0 0) \<noteq> parseInt (cleanCPF ! 10) then False
      else True)"

text \<open>
  The checksum rule as the specification words it, on the list of digit values that
  remain once every non-digit is removed.
\<close>

definition cpfDigits :: "string \<Rightarrow> int list" where
  "cpfDigits cpf = map parseInt (filter isDigit cpf)"

definition mapTenEleven :: "int \<Rightarrow> int" where
  "mapTenEleven r = (if r = 10 \<or> r = 11 then 0 else r)"

definition isValidCPF_spec :: "string \<Rightarrow> bool" where
  "isValidCPF_spec cpf =
     (let d = cpfDigits cpf in
      length d = 11 \<and>
      (\<exists>i \<in> {0..<11}. \<exists>j \<in> {0..<11}. d ! i \<noteq> d ! j) \<and>
      d ! 9 = mapTenEleven (((\<Sum>i = 0..<9. d ! i * (10 - int i)) * 10) mod 11) \<and>
      d ! 10 = mapTenEleven (((\<Sum>i = 0..<10. d ! i * (11 - int i)) * 10) mod 11))"

section \<open>Input masks (Home.tsx)\<close>

definition formatCPF :: "string \<Rightarrow> string" where
  "formatCPF v =
     (let digits = slice (removeNonDigits v) 0 11 in
      if length digits \<le> 3 then digits
      else if length digits \<le> 6 then slice digits 0 3 @ ''.'' @ sliceFrom digits 3
      else if length digits \<le> 9
        then slice digits 0 3 @ ''.'' @ slice digits 3 6 @ ''.'' @ sliceFrom digits 6
      else slice digits 0 3 @ ''.'' @ slice digits 3 6 @ ''.'' @ slice digits 6 9
             @ ''-'' @ sliceFrom digits 9)"

definition formatPhone :: "string \<Rightarrow> string" where
  "formatPhone v =
     (let digits = slice (removeNonDigits v) 0 11 in
      if length digits \<le> 2 then digits
      else if length digits \<le> 7 then ''('' @ slice digits 0 2 @ '') '' @ sliceFrom digits 2
      else ''('' @ slice digits 0 2 @ '') '' @ slice digits 2 7 @ ''-'' @ sliceFrom digits 7)"

section \<open>Schema (drizzle/schema.ts)\<close>

datatype role = user | admin

datatype availability = imediata | dias_15 | dias_30

datatype preferredSchedule = manha | tarde | noite | integral | flexivel

datatype status = pendente | em_analise | aprovado | rejeitado

text \<open>
  A timestamp (a JavaScript \<^verbatim>\<open>Date\<close>, a PostgreSQL \<^verbatim>\<open>timestamp\<close>) is modelled by its
  time value, an integer; a JavaScript number that is an id or a count is an integer.
\<close>

type_synonym timestamp = int

record User =
  userId :: int
  openId :: string
  userName :: "string option"
  userEmail :: "string option"
  loginMethod :: "string option"
  role :: role
  userCreatedAt :: timestamp
  userUpdatedAt :: timestamp
  lastSignedIn :: timestamp

text \<open>A row of the table \<^verbatim>\<open>applications\<close>; a nullable column is an option.\<close>

record Application =
  appId :: int
  fullName :: string
  phone :: string
  email :: "string option"
  cpf :: string
  city :: string
  state :: string
  vehicleTypes :: "string list"
  experienceYears :: int
  availability :: availability
  hasPendingFines :: bool
  acceptsLongTrips :: bool
  preferredSchedule :: preferredSchedule
  hasExperienceWithCargo :: bool
  hasExperienceWithPassengers :: bool
  appNotes :: "string option"
  status :: status
  createdAt :: timestamp
  updatedAt :: timestamp

text \<open>
  The values handed to an insert. The columns \<^verbatim>\<open>id\<close>, \<^verbatim>\<open>created_at\<close> and
  \<^verbatim>\<open>updated_at\<close> are left to their defaults by the only caller and are not part of
  the record; \<^verbatim>\<open>status\<close> may be given and defaults to \<^verbatim>\<open>pendente\<close>.
\<close>

record InsertApplication =
  new_fullName :: string
  new_phone :: string
  new_email :: "string option"
  new_cpf :: string
  new_city :: string
  new_state :: string
  new_vehicleTypes :: "string list"
  new_experienceYears :: int
  new_availability :: availability
  new_hasPendingFines :: bool
  new_acceptsLongTrips :: bool
  new_preferredSchedule :: preferredSchedule
  new_hasExperienceWithCargo :: bool
  new_hasExperienceWithPassengers :: bool
  new_notes :: "string option"
  new_status :: "status option"

section \<open>Database access (db.ts)\<close>

text \<open>
  The PostgreSQL side is a table of rows, in insertion order, and the sequence behind
  the \<^verbatim>\<open>serial\<close> column. The server process sees it through \<^verbatim>\<open>getDb()\<close>, which
  returns \<^verbatim>\<open>null\<close> when \<^verbatim>\<open>DATABASE_URL\<close> is not set.
\<close>

record Database =
  applications :: "Application list"
  applications_id_seq :: int

record Server =
  DATABASE_URL :: bool
  pg :: Database

datatype code = FORBIDDEN | NOT_FOUND

text \<open>
  \<^verbatim>\<open>DatabaseError\<close> is the error that the database driver throws when PostgreSQL
  rejects a statement; tRPC reports it as an internal server error.
\<close>

datatype error =
    TRPCError code string
  | Error string
  | ZodError
  | Unauthenticated
  | DatabaseError

definition getDb :: "Server \<Rightarrow> Database option" where
  "getDb s = (if DATABASE_URL s then Some (pg s) else None)"

definition notAvailable :: error where
  "notAvailable = Error ''Database not available''"

text \<open>
  What PostgreSQL does with a value for a column of the schema. An \<^verbatim>\<open>integer\<close>
  (and \<^verbatim>\<open>serial\<close>) column holds 32-bit signed integers, and a value outside that
  range is rejected, in a comparison with the column as in an insert. A text value
  holding the character with code 0 is rejected. A string longer than the width of a
  \<^verbatim>\<open>varchar(n)\<close> column is rejected, unless all the characters beyond the width are
  spaces, in which case its first \<open>n\<close> characters are stored. \<open>None\<close> is the rejection.
\<close>

definition int4 :: "int \<Rightarrow> bool" where
  "int4 i = (- 2147483648 \<le> i \<and> i \<le> 2147483647)"

definition pg_text :: "string \<Rightarrow> string option" where
  "pg_text v = (if CHR 0x00 \<in> set v then None else Some v)"

definition varchar :: "nat \<Rightarrow> string \<Rightarrow> string option" where
  "varchar n v =
     (if CHR 0x00 \<in> set v then None
      else if length v \<le> n then Some v
      else if list_all (\<lambda>c. c = CHR '' '') (drop n v) then Some (take n v)
      else None)"

definition nullable :: "(string \<Rightarrow> string option) \<Rightarrow> string option \<Rightarrow> string option option" where
  "nullable column v = (case v of None \<Rightarrow> Some None | Some str \<Rightarrow> map_option Some (column str))"

text \<open>
  The values of an insert as the columns of \<^verbatim>\<open>applications\<close> take them, or \<open>None\<close>
  when one of them is rejected. The array of vehicle types goes to a \<^verbatim>\<open>json\<close>
  column, the enumerations and the booleans have the columns' own types.
\<close>

definition columnValues :: "InsertApplication \<Rightarrow> InsertApplication option" where
  "columnValues data =
     Option.bind (varchar 255 (new_fullName data)) (\<lambda>v_fullName.
     Option.bind (varchar 20 (new_phone data)) (\<lambda>v_phone.
     Option.bind (nullable (varchar 320) (new_email data)) (\<lambda>v_email.
     Option.bind (varchar 14 (new_cpf data)) (\<lambda>v_cpf.
     Option.bind (varchar 100 (new_city data)) (\<lambda>v_city.
     Option.bind (varchar 2 (new_state data)) (\<lambda>v_state.
     Option.bind (nullable pg_text (new_notes data)) (\<lambda>v_notes.
       if int4 (new_experienceYears data)
       then Some (data\<lparr> new_fullName := v_fullName, new_phone := v_phone,
                   new_email := v_email, new_cpf := v_cpf, new_city := v_city,
                   new_state := v_state, new_notes := v_notes \<rparr>)
       else None)))))))"

text \<open>
  The row that an insert stores for values that the columns have taken: the id is the
  next value \<open>i\<close> of the sequence, the status defaults to \<^verbatim>\<open>pendente\<close>, both
  timestamps default to the database's current time \<open>now\<close>.
\<close>

definition insertedRow :: "int \<Rightarrow> timestamp \<Rightarrow> InsertApplication \<Rightarrow> Application" where
  "insertedRow i now v =
     \<lparr> appId = i,
       fullName = new_fullName v,
       phone = new_phone v,
       email = new_email v,
       cpf = new_cpf v,
       city = new_city v,
       state = new_state v,
       vehicleTypes = new_vehicleTypes v,
       experienceYears = new_experienceYears v,
       availability = new_availability v,
       hasPendingFines = new_hasPendingFines v,
       acceptsLongTrips = new_acceptsLongTrips v,
       preferredSchedule = new_preferredSchedule v,
       hasExperienceWithCargo = new_hasExperienceWithCargo v,
       hasExperienceWithPassengers = new_hasExperienceWithPassengers v,
       appNotes = new_notes v,
       status = (case new_status v of None \<Rightarrow> pendente | Some st \<Rightarrow> st),
       createdAt = now,
       updatedAt = now \<rparr>"

text \<open>
  \<^verbatim>\<open>db.insert(applications).values(data).returning()\<close>: when the columns take the
  values, the new row is appended and returned; when a value is rejected the insert
  throws and nothing is stored. The sequence is taken to be ahead of every stored id
  and within the range of the column.
\<close>

definition createApplication ::
  "timestamp \<Rightarrow> InsertApplication \<Rightarrow> Server \<Rightarrow> (error + Application) \<times> Server" where
  "createApplication now data s =
     (case getDb s of
        None \<Rightarrow> (Inl notAvailable, s)
      | Some db \<Rightarrow>
          (case columnValues data of
             None \<Rightarrow> (Inl DatabaseError, s)
           | Some v \<Rightarrow>
               let application = insertedRow (applications_id_seq db) now v
               in (Inr application,
                   s\<lparr>pg := db\<lparr>applications := applications db @ [application],
                                applications_id_seq := applications_id_seq db + 1\<rparr>\<rparr>)))"

text \<open>
  \<^verbatim>\<open>const [application] = await db.select()...where(eq(applications.id, id))\<close>: the
  first selected row, or \<^verbatim>\<open>undefined\<close>. The id is compared with the \<^verbatim>\<open>serial\<close>
  column: the query throws for an id outside the range of the column.
\<close>

definition getApplicationById :: "int \<Rightarrow> Server \<Rightarrow> error + Application option" where
  "getApplicationById i s =
     (case getDb s of
        None \<Rightarrow> Inl notAvailable
      | Some db \<Rightarrow>
          if \<not> int4 i then Inl DatabaseError
          else
          (case filter (\<lambda>a. appId a = i) (applications db) of
             [] \<Rightarrow> Inr None
           | application # _ \<Rightarrow> Inr (Some application)))"

record ListFilters =
  f_vehicleType :: "string option"
  f_availability :: "availability option"
  f_startDate :: "timestamp option"
  f_endDate :: "timestamp option"

text \<open>The conditions pushed by \<^verbatim>\<open>listApplications\<close>, and their conjunction \<^verbatim>\<open>and(...)\<close>.\<close>

datatype condition =
    Eq_availability availability
  | Gte_createdAt timestamp
  | Lte_createdAt timestamp

fun holds :: "condition \<Rightarrow> Application \<Rightarrow> bool" where
  "holds (Eq_availability v) a = (availability a = v)"
| "holds (Gte_createdAt t) a = (createdAt a \<ge> t)"
| "holds (Lte_createdAt t) a = (createdAt a \<le> t)"

definition and_conditions :: "condition list \<Rightarrow> Application \<Rightarrow> bool" where
  "and_conditions cs a = list_all (\<lambda>c. holds c a) cs"

text \<open>
  \<^verbatim>\<open>orderBy(desc(applications.createdAt))\<close>: the rows sorted by decreasing creation
  time. SQL leaves the order of rows with equal keys open; the model keeps them in
  table order.
\<close>

definition orderBy_desc_createdAt :: "Application list \<Rightarrow> Application list" where
  "orderBy_desc_createdAt rows = sort_key (\<lambda>a. - createdAt a) rows"

text \<open>
  A test \<^verbatim>\<open>if (filters?.x)\<close> is on the truthiness of the value: an absent filter
  object, an absent field and the empty string are falsy; an enumeration value and a
  \<^verbatim>\<open>Date\<close> object are truthy. \<^verbatim>\<open>filters?.x\<close> is \<open>Option.bind filters x\<close>.
\<close>

definition listApplications :: "ListFilters option \<Rightarrow> Server \<Rightarrow> error + Application list" where
  "listApplications filters s =
     (case getDb s of
        None \<Rightarrow> Inl notAvailable
      | Some db \<Rightarrow>
          let conditions =
                (case Option.bind filters f_availability of
                   Some v \<Rightarrow> [Eq_availability v] | None \<Rightarrow> [])
              @ (case Option.bind filters f_startDate of
                   Some t \<Rightarrow> [Gte_createdAt t] | None \<Rightarrow> [])
              @ (case Option.bind filters f_endDate of
                   Some t \<Rightarrow> [Lte_createdAt t] | None \<Rightarrow> []);
              query = (if length conditions > 0
                       then filter (and_conditions conditions) (applications db)
                       else applications db);
              results = orderBy_desc_createdAt query
          in (case Option.bind filters f_vehicleType of
                None \<Rightarrow> Inr results
              | Some vt \<Rightarrow>
                  if vt \<noteq> []
                  then Inr (filter (\<lambda>app. vt \<in> set (vehicleTypes app)) results)
                  else Inr results))"

definition updateApplicationStatus :: "int \<Rightarrow> status \<Rightarrow> Server \<Rightarrow> (error + unit) \<times> Server" where
  "updateApplicationStatus i st s =
     (case getDb s of
        None \<Rightarrow> (Inl notAvailable, s)
      | Some db \<Rightarrow>
          if \<not> int4 i then (Inl DatabaseError, s)
          else
          (Inr (),
           s\<lparr>pg := db\<lparr>applications :=
                  map (\<lambda>a. if appId a = i then a\<lparr>status := st\<rparr> else a) (applications db)\<rparr>\<rparr>))"

record Stats =
  st_total :: int
  st_pendente :: int
  st_em_analise :: int
  st_aprovado :: int
  st_rejeitado :: int

definition getApplicationStats :: "Server \<Rightarrow> error + Stats" where
  "getApplicationStats s =
     (case getDb s of
        None \<Rightarrow> Inl notAvailable
      | Some db \<Rightarrow>
          let allApplications = applications db
          in Inr \<lparr> st_total = int (length allApplications),
                   st_pendente = int (length (filter (\<lambda>a. status a = pendente) allApplications)),
                   st_em_analise = int (length (filter (\<lambda>a. status a = em_analise) allApplications)),
                   st_aprovado = int (length (filter (\<lambda>a. status a = aprovado) allApplications)),
                   st_rejeitado = int (length (filter (\<lambda>a. status a = rejeitado) allApplications)) \<rparr>)"

section \<open>Procedures (routers.ts)\<close>

record TrpcContext =
  ctx_user :: "User option"

text \<open>
  Modelled from the spec: \<^verbatim>\<open>publicProcedure\<close> of \<^verbatim>\<open>./_core/trpc\<close> is not among
  the sources. Public users submit applications, and the test of
  \<^verbatim>\<open>applications.submit\<close> calls it with \<^verbatim>\<open>user: null\<close> and succeeds: the next step
  runs for every context, with or without a user.
\<close>

definition publicProcedure ::
  "TrpcContext \<Rightarrow> (Server \<Rightarrow> (error + 'a) \<times> Server) \<Rightarrow> Server \<Rightarrow> (error + 'a) \<times> Server" where
  "publicProcedure ctx next s = next s"

text \<open>
  Modelled from the spec: \<^verbatim>\<open>protectedProcedure\<close> of \<^verbatim>\<open>./_core/trpc\<close> is not among
  the sources. Administrators authenticate, and the test of \<^verbatim>\<open>applications.list\<close>
  expects a call with \<^verbatim>\<open>user: null\<close> to be rejected: a context without a user fails
  with \<^const>\<open>Unauthenticated\<close>, which stands for whatever is thrown there; otherwise the
  next step runs with the user.
\<close>

definition protectedProcedure ::
  "TrpcContext \<Rightarrow> (User \<Rightarrow> Server \<Rightarrow> (error + 'a) \<times> Server) \<Rightarrow> Server \<Rightarrow> (error + 'a) \<times> Server" where
  "protectedProcedure ctx next s =
     (case ctx_user ctx of
        None \<Rightarrow> (Inl Unauthenticated, s)
      | Some u \<Rightarrow> next u s)"

definition adminProcedure ::
  "TrpcContext \<Rightarrow> (Server \<Rightarrow> (error + 'a) \<times> Server) \<Rightarrow> Server \<Rightarrow> (error + 'a) \<times> Server" where
  "adminProcedure ctx next s =
     protectedProcedure ctx
       (\<lambda>u s. if role u \<noteq> admin
              then (Inl (TRPCError FORBIDDEN ''Acesso restrito a administradores''), s)
              else next s) s"

text \<open>A query handler reads the state and leaves it as it is.\<close>

definition query :: "(Server \<Rightarrow> error + 'a) \<Rightarrow> Server \<Rightarrow> (error + 'a) \<times> Server" where
  "query f s = (f s, s)"

record SubmitInput =
  in_fullName :: string
  in_phone :: string
  in_email :: "string option"
  in_cpf :: string
  in_city :: string
  in_state :: string
  in_vehicleTypes :: "string list"
  in_experienceYears :: int
  in_availability :: availability
  in_hasPendingFines :: bool
  in_acceptsLongTrips :: bool
  in_preferredSchedule :: preferredSchedule
  in_hasExperienceWithCargo :: bool
  in_hasExperienceWithPassengers :: bool
  in_notes :: "string option"

text \<open>
  The zod schema of \<^verbatim>\<open>submit\<close>, on an input that already has the schema's types. The
  test \<^verbatim>\<open>z.string().email()\<close> belongs to the zod library and is the parameter
  \<open>zodEmail\<close>.
\<close>

definition emailValid :: "(string \<Rightarrow> bool) \<Rightarrow> string option \<Rightarrow> bool" where
  "emailValid zodEmail e = (case e of None \<Rightarrow> True | Some str \<Rightarrow> zodEmail str \<or> str = [])"

definition vehicleTypesValid :: "string list \<Rightarrow> bool" where
  "vehicleTypesValid vts = (length vts \<ge> 1)"

definition submitInputValid :: "(string \<Rightarrow> bool) \<Rightarrow> SubmitInput \<Rightarrow> bool" where
  "submitInputValid zodEmail inp =
     (length (in_fullName inp) \<ge> 3 \<and>
      length (in_phone inp) \<ge> 10 \<and>
      emailValid zodEmail (in_email inp) \<and>
      isValidCPF (in_cpf inp) \<and>
      length (in_city inp) \<ge> 2 \<and>
      length (in_state inp) = 2 \<and>
      vehicleTypesValid (in_vehicleTypes inp) \<and>
      in_experienceYears inp \<ge> 0)"

text \<open>\<^verbatim>\<open>v || null\<close> on an optional string: absent and empty both give \<^verbatim>\<open>null\<close>.\<close>

definition orNull :: "string option \<Rightarrow> string option" where
  "orNull v = (case v of None \<Rightarrow> None | Some str \<Rightarrow> if str = [] then None else Some str)"

record SubmitResult =
  success :: bool
  newId :: int

text \<open>The object that the mutation of \<^verbatim>\<open>submit\<close> hands to \<^verbatim>\<open>createApplication\<close>.\<close>

definition submitValues :: "SubmitInput \<Rightarrow> InsertApplication" where
  "submitValues inp =
     \<lparr> new_fullName = in_fullName inp,
       new_phone = in_phone inp,
       new_email = orNull (in_email inp),
       new_cpf = in_cpf inp,
       new_city = in_city inp,
       new_state = in_state inp,
       new_vehicleTypes = in_vehicleTypes inp,
       new_experienceYears = in_experienceYears inp,
       new_availability = in_availability inp,
       new_hasPendingFines = in_hasPendingFines inp,
       new_acceptsLongTrips = in_acceptsLongTrips inp,
       new_preferredSchedule = in_preferredSchedule inp,
       new_hasExperienceWithCargo = in_hasExperienceWithCargo inp,
       new_hasExperienceWithPassengers = in_hasExperienceWithPassengers inp,
       new_notes = orNull (in_notes inp),
       new_status = None \<rparr>"

definition applications_submit ::
  "(string \<Rightarrow> bool) \<Rightarrow> timestamp \<Rightarrow> TrpcContext \<Rightarrow> SubmitInput \<Rightarrow> Server
     \<Rightarrow> (error + SubmitResult) \<times> Server" where
  "applications_submit zodEmail now ctx inp =
     publicProcedure ctx
       (\<lambda>s. if \<not> submitInputValid zodEmail inp then (Inl ZodError, s)
            else
              (case createApplication now (submitValues inp) s of
                 (Inl e, s') \<Rightarrow> (Inl e, s')
               | (Inr application, s') \<Rightarrow>
                   (Inr \<lparr> success = True, newId = appId application \<rparr>, s')))"

record ListInput =
  li_vehicleType :: "string option"
  li_availability :: "availability option"
  li_startDate :: "string option"
  li_endDate :: "string option"

text \<open>
  \<^verbatim>\<open>input.startDate ? new Date(input.startDate) : undefined\<close>. The constructor
  \<^verbatim>\<open>new Date(string)\<close> is the parameter \<open>newDate\<close>; a string that is no date is
  outside the model.
\<close>

definition toDate :: "(string \<Rightarrow> timestamp) \<Rightarrow> string option \<Rightarrow> timestamp option" where
  "toDate newDate v =
     (case v of None \<Rightarrow> None | Some str \<Rightarrow> if str \<noteq> [] then Some (newDate str) else None)"

definition applications_list ::
  "(string \<Rightarrow> timestamp) \<Rightarrow> TrpcContext \<Rightarrow> ListInput option \<Rightarrow> Server
     \<Rightarrow> (error + Application list) \<times> Server" where
  "applications_list newDate ctx inp =
     adminProcedure ctx
       (query (\<lambda>s.
          let filters =
            (case inp of
               Some i \<Rightarrow> Some \<lparr> f_vehicleType = li_vehicleType i,
                                 f_availability = li_availability i,
                                 f_startDate = toDate newDate (li_startDate i),
                                 f_endDate = toDate newDate (li_endDate i) \<rparr>
             | None \<Rightarrow> None)
          in listApplications filters s))"

definition notFound :: error where
  "notFound = TRPCError NOT_FOUND (''Candidatura n'' @ [CHR 0xE3] @ ''o encontrada'')"

definition applications_getById ::
  "TrpcContext \<Rightarrow> int \<Rightarrow> Server \<Rightarrow> (error + Application) \<times> Server" where
  "applications_getById ctx i =
     adminProcedure ctx
       (query (\<lambda>s.
          case getApplicationById i s of
            Inl e \<Rightarrow> Inl e
          | Inr None \<Rightarrow> Inl notFound
          | Inr (Some application) \<Rightarrow> Inr application))"

text \<open>The result \<^verbatim>\<open>{ success: true }\<close> of \<^verbatim>\<open>updateStatus\<close> is the value \<open>True\<close>.\<close>

definition applications_updateStatus ::
  "TrpcContext \<Rightarrow> int \<Rightarrow> status \<Rightarrow> Server \<Rightarrow> (error + bool) \<times> Server" where
  "applications_updateStatus ctx i st =
     adminProcedure ctx
       (\<lambda>s. case updateApplicationStatus i st s of
               (Inl e, s') \<Rightarrow> (Inl e, s')
             | (Inr _, s') \<Rightarrow> (Inr True, s'))"

definition applications_stats :: "TrpcContext \<Rightarrow> Server \<Rightarrow> (error + Stats) \<times> Server" where
  "applications_stats ctx = adminProcedure ctx (query getApplicationStats)"

section \<open>Filter and count rules as the specification words them\<close>

text \<open>
  An application satisfies the supplied filters: inclusive range on the creation
  time, equality on the availability, membership of the vehicle-type tag; an omitted
  filter imposes nothing.
\<close>

definition satisfiesFilters_spec :: "ListFilters option \<Rightarrow> Application \<Rightarrow> bool" where
  "satisfiesFilters_spec filters a =
     ((case Option.bind filters f_startDate of None \<Rightarrow> True | Some t \<Rightarrow> createdAt a \<ge> t) \<and>
      (case Option.bind filters f_endDate of None \<Rightarrow> True | Some t \<Rightarrow> createdAt a \<le> t) \<and>
      (case Option.bind filters f_availability of None \<Rightarrow> True | Some v \<Rightarrow> availability a = v) \<and>
      (case Option.bind filters f_vehicleType of None \<Rightarrow> True | Some vt \<Rightarrow> vt \<in> set (vehicleTypes a)))"

text \<open>The same rule, with the empty string as vehicle type counted as an omitted filter.\<close>

definition satisfiesFilters :: "ListFilters option \<Rightarrow> Application \<Rightarrow> bool" where
  "satisfiesFilters filters a =
     ((case Option.bind filters f_startDate of None \<Rightarrow> True | Some t \<Rightarrow> createdAt a \<ge> t) \<and>
      (case Option.bind filters f_endDate of None \<Rightarrow> True | Some t \<Rightarrow> createdAt a \<le> t) \<and>
      (case Option.bind filters f_availability of None \<Rightarrow> True | Some v \<Rightarrow> availability a = v) \<and>
      (case Option.bind filters f_vehicleType of None \<Rightarrow> True
       | Some vt \<Rightarrow> vt = [] \<or> vt \<in> set (vehicleTypes a)))"

text \<open>The filters without the vehicle type: what is left to the database query.\<close>

definition withoutVehicleType :: "ListFilters option \<Rightarrow> ListFilters option" where
  "withoutVehicleType filters = map_option (\<lambda>f. f\<lparr>f_vehicleType := None\<rparr>) filters"

definition newestFirst :: "Application list \<Rightarrow> bool" where
  "newestFirst rows = sorted_wrt (\<lambda>a b. createdAt a \<ge> createdAt b) rows"

definition vehicleTags :: "string list" where
  "vehicleTags = [''moto'', ''carro'', ''van'', ''caminhao'', ''onibus'']"

section \<open>Sample data (applications.test.ts)\<close>

definition sampleApplication :: Application where
  "sampleApplication =
     \<lparr> appId = 1, fullName = ''Joao Silva'', phone = ''(11) 99999-9999'',
       email = Some ''joao@email.com'', cpf = ''123.456.789-09'', city = ''Sao Paulo'',
       state = ''SP'', vehicleTypes = [''caminhao'', ''carro''], experienceYears = 5,
       availability = imediata, hasPendingFines = False, acceptsLongTrips = True,
       preferredSchedule = integral, hasExperienceWithCargo = True,
       hasExperienceWithPassengers = False, appNotes = None, status = pendente,
       createdAt = 1000, updatedAt = 1000 \<rparr>"

definition secondApplication :: Application where
  "secondApplication =
     sampleApplication\<lparr> appId := 2, vehicleTypes := [''moto''], availability := dias_15,
       status := aprovado, createdAt := 2000, updatedAt := 2000 \<rparr>"

definition sampleServer :: Server where
  "sampleServer =
     \<lparr> DATABASE_URL = True,
       pg = \<lparr> applications = [sampleApplication, secondApplication],
              applications_id_seq = 3 \<rparr> \<rparr>"

definition sampleInput :: SubmitInput where
  "sampleInput =
     \<lparr> in_fullName = ''Joao Silva'', in_phone = ''(11) 99999-9999'',
       in_email = Some ''joao@email.com'', in_cpf = ''529.982.247-25'',
       in_city = ''Sao Paulo'', in_state = ''SP'', in_vehicleTypes = [''caminhao'', ''carro''],
       in_experienceYears = 5, in_availability = imediata, in_hasPendingFines = False,
       in_acceptsLongTrips = True, in_preferredSchedule = integral,
       in_hasExperienceWithCargo = True, in_hasExperienceWithPassengers = False,
       in_notes = Some ''Tenho experiencia com cargas pesadas'' \<rparr>"

definition sampleUser :: User where
  "sampleUser =
     \<lparr> userId = 2, openId = ''regular-user'', userName = Some ''Regular User'',
       userEmail = Some ''user@example.com'', loginMethod = Some ''manus'', role = user,
       userCreatedAt = 0, userUpdatedAt = 0, lastSignedIn = 0 \<rparr>"

definition createPublicContext :: TrpcContext where
  "createPublicContext = \<lparr> ctx_user = None \<rparr>"

definition createAdminContext :: TrpcContext where
  "createAdminContext =
     \<lparr> ctx_user = Some (sampleUser\<lparr> userId := 1, openId := ''admin-user'',
         userName := Some ''Admin User'', userEmail := Some ''admin@example.com'',
         role := admin \<rparr>) \<rparr>"

definition createUserContext :: TrpcContext where
  "createUserContext = \<lparr> ctx_user = Some sampleUser \<rparr>"

text \<open>A stand-in for the e-mail test of zod in the samples: the string holds an \<^verbatim>\<open>@\<close>.\<close>

definition sampleEmailTest :: "string \<Rightarrow> bool" where
  "sampleEmailTest str = (CHR ''@'' \<in> set str)"

section \<open>The CPF checksum\<close>

lemma weightedSum_sum:
  "weightedSum s w n i acc = acc + (\<Sum>k = i..<n. parseInt (s ! k) * (w - int k))"
  by (induction s w n i acc rule: weightedSum.induct)
     (subst weightedSum.simps, simp add: sum.atLeast_Suc_lessThan)

lemma parseInt_eq_iff: "parseInt a = parseInt b \<longleftrightarrow> a = b"
  by (simp add: parseInt_def)

lemma weightedSum_digits:
  assumes "n \<le> length s"
  shows "weightedSum s w n 0 0 = (\<Sum>i = 0..<n. map parseInt s ! i * (w - int i))"
proof -
  have "(\<Sum>k = 0..<n. parseInt (s ! k) * (w - int k))
      = (\<Sum>i = 0..<n. map parseInt s ! i * (w - int i))"
    using assms by (intro sum.cong) auto
  then show ?thesis by (simp add: weightedSum_sum)
qed

lemma checkDigit_mapTenEleven: "checkDigit s = mapTenEleven ((s * 10) mod 11)"
  by (simp add: checkDigit_def mapTenEleven_def Let_def)

lemma distinct_digits_iff:
  assumes len: "length s = 11"
  shows "(\<exists>i \<in> {0..<11}. \<exists>j \<in> {0..<11}. map parseInt s ! i \<noteq> map parseInt s ! j)
     \<longleftrightarrow> (\<exists>i < 11. \<exists>j < 11. s ! i \<noteq> s ! j)"
proof -
  have m: "map parseInt s ! i \<noteq> map parseInt s ! j \<longleftrightarrow> s ! i \<noteq> s ! j"
    if "i < 11" "j < 11" for i j
    using that len by (simp add: parseInt_eq_iff)
  show ?thesis
  proof
    assume "\<exists>i \<in> {0..<11}. \<exists>j \<in> {0..<11}. map parseInt s ! i \<noteq> map parseInt s ! j"
    then obtain i j where "i < 11" "j < 11" "map parseInt s ! i \<noteq> map parseInt s ! j"
      unfolding Bex_def atLeastLessThan_iff by blast
    then show "\<exists>i < 11. \<exists>j < 11. s ! i \<noteq> s ! j" using m by blast
  next
    assume "\<exists>i < 11. \<exists>j < 11. s ! i \<noteq> s ! j"
    then obtain i j where ij: "i < 11" "j < 11" "s ! i \<noteq> s ! j" by blast
    then have "map parseInt s ! i \<noteq> map parseInt s ! j" using m by blast
    with ij show "\<exists>i \<in> {0..<11}. \<exists>j \<in> {0..<11}. map parseInt s ! i \<noteq> map parseInt s ! j"
      unfolding Bex_def atLeastLessThan_iff by blast
  qed
qed

lemma repeatedDigit_iff:
  assumes len: "length s = 11" and dig: "\<forall>c \<in> set s. isDigit c"
  shows "repeatedDigit s \<longleftrightarrow>
    \<not> (\<exists>i \<in> {0..<11}. \<exists>j \<in> {0..<11}. map parseInt s ! i \<noteq> map parseInt s ! j)"
proof -
  obtain c cs where s: "s = c # cs" using len by (cases s) auto
  have cs: "length cs = 10" using len s by simp
  have "repeatedDigit s \<longleftrightarrow> (\<forall>x \<in> set s. x = c)"
    using dig cs by (auto simp: repeatedDigit_def s list_all_iff)
  also have "\<dots> \<longleftrightarrow> (\<forall>i < 11. s ! i = c)"
    by (simp add: all_set_conv_all_nth len)
  also have "\<dots> \<longleftrightarrow> (\<forall>i < 11. \<forall>j < 11. s ! i = s ! j)"
  proof
    assume "\<forall>i < 11. s ! i = c"
    then show "\<forall>i < 11. \<forall>j < 11. s ! i = s ! j" by simp
  next
    assume h: "\<forall>i < 11. \<forall>j < 11. s ! i = s ! j"
    have "s ! 0 = c" by (simp add: s)
    moreover have "(0::nat) < 11" by simp
    ultimately show "\<forall>i < 11. s ! i = c" using h by metis
  qed
  also have "\<dots> \<longleftrightarrow> \<not> (\<exists>i < 11. \<exists>j < 11. s ! i \<noteq> s ! j)"
    by blast
  finally show ?thesis unfolding distinct_digits_iff [OF len] .
qed

text \<open>
  C2. For every string, \<open>isValidCPF\<close> returns true exactly when, once every non-digit
  is removed, eleven digits remain, they are not all the same, the tenth digit is
  \<open>((\<Sum>i=0..8. digit i * (10 - i)) * 10) mod 11\<close> with 10 and 11 mapped to 0, and the
  eleventh digit is \<open>((\<Sum>i=0..9. digit i * (11 - i)) * 10) mod 11\<close> with 10 and 11 mapped
  to 0.
\<close>

theorem isValidCPF_checksum: "isValidCPF v \<longleftrightarrow> isValidCPF_spec v"
proof (cases "length (removeNonDigits v) = 11")
  case False
  then show ?thesis
    by (simp add: isValidCPF_def isValidCPF_spec_def cpfDigits_def removeNonDigits_def Let_def)
next
  case True
  let ?c = "removeNonDigits v"
  have dig: "\<forall>c \<in> set ?c. isDigit c" by (simp add: removeNonDigits_def)
  have d: "cpfDigits v = map parseInt ?c" by (simp add: cpfDigits_def removeNonDigits_def)
  have r: "repeatedDigit ?c \<longleftrightarrow>
      \<not> (\<exists>i \<in> {0..<11}. \<exists>j \<in> {0..<11}. map parseInt ?c ! i \<noteq> map parseInt ?c ! j)"
    by (rule repeatedDigit_iff [OF True dig])
  have s9: "weightedSum ?c 10 9 0 0 = (\<Sum>i = 0..<9. map parseInt ?c ! i * (10 - int i))"
    using True by (intro weightedSum_digits) simp
  have s10: "weightedSum ?c 11 10 0 0 = (\<Sum>i = 0..<10. map parseInt ?c ! i * (11 - int i))"
    using True by (intro weightedSum_digits) simp
  have n9: "parseInt (?c ! 9) = map parseInt ?c ! 9" using True by simp
  have n10: "parseInt (?c ! 10) = map parseInt ?c ! 10" using True by simp
  define a where "a = (\<Sum>i = 0..<9. map parseInt ?c ! i * (10 - int i))"
  define b where "b = (\<Sum>i = 0..<10. map parseInt ?c ! i * (11 - int i))"
  define q where
    "q = (\<exists>i \<in> {0..<11}. \<exists>j \<in> {0..<11}. map parseInt ?c ! i \<noteq> map parseInt ?c ! j)"
  have lhs: "isValidCPF v \<longleftrightarrow>
      q \<and> mapTenEleven ((a * 10) mod 11) = map parseInt ?c ! 9
        \<and> mapTenEleven ((b * 10) mod 11) = map parseInt ?c ! 10"
    unfolding isValidCPF_def Let_def r s9 s10 n9 n10 checkDigit_mapTenEleven
      a_def [symmetric] b_def [symmetric] q_def [symmetric]
    using True by simp
  have rhs: "isValidCPF_spec v \<longleftrightarrow>
      q \<and> map parseInt ?c ! 9 = mapTenEleven ((a * 10) mod 11)
        \<and> map parseInt ?c ! 10 = mapTenEleven ((b * 10) mod 11)"
    unfolding isValidCPF_spec_def Let_def d a_def [symmetric] b_def [symmetric] q_def [symmetric]
    using True by simp
  show ?thesis unfolding lhs rhs by (simp only: eq_commute)
qed

theorem isValidCPF_checksum_witness:
  "isValidCPF_spec ''529.982.247-25'' \<and> \<not> isValidCPF_spec ''111.111.111-11''"
proof -
  have "isValidCPF ''529.982.247-25''" by code_simp
  moreover have "\<not> isValidCPF ''111.111.111-11''" by code_simp
  ultimately show ?thesis
    using isValidCPF_checksum [of "''529.982.247-25''"]
      isValidCPF_checksum [of "''111.111.111-11''"] by blast
qed

section \<open>The input masks\<close>

lemma filter_digits_id: "\<forall>c \<in> set d. isDigit c \<Longrightarrow> filter isDigit d = d"
  by (simp add: filter_id_conv)

lemma filter_digits_slice:
  "\<forall>c \<in> set d. isDigit c \<Longrightarrow> filter isDigit (slice d a b) = slice d a b"
  unfolding slice_def by (intro filter_digits_id) (meson in_set_dropD in_set_takeD)

lemma filter_digits_sliceFrom:
  "\<forall>c \<in> set d. isDigit c \<Longrightarrow> filter isDigit (sliceFrom d a) = sliceFrom d a"
  unfolding sliceFrom_def by (intro filter_digits_id) (meson in_set_dropD)

lemma slice_sliceFrom: "a \<le> b \<Longrightarrow> slice d a b @ sliceFrom d b = sliceFrom d a"
proof -
  assume "a \<le> b"
  then have "drop b d = drop (b - a) (drop a d)" by simp
  then show ?thesis unfolding slice_def sliceFrom_def by (simp only: append_take_drop_id)
qed

lemma sliceFrom_0: "sliceFrom d 0 = d"
  by (simp add: sliceFrom_def)

lemma first_digits:
  "slice (removeNonDigits v) 0 11 = take 11 (filter isDigit v)"
  by (simp add: slice_def removeNonDigits_def)

lemma first_digits_fix:
  assumes "\<forall>c \<in> set d. isDigit c" "length d \<le> 11"
  shows "slice (removeNonDigits d) 0 11 = d"
  using assms by (simp add: first_digits filter_digits_id)

lemma separators: "\<not> isDigit CHR ''.''" "\<not> isDigit CHR ''-''" "\<not> isDigit CHR ''(''"
  "\<not> isDigit CHR '')''" "\<not> isDigit CHR '' ''"
  by (simp_all add: isDigit_def)

lemma formatCPF_digits:
  assumes dig: "\<forall>c \<in> set d. isDigit c" and len: "length d \<le> 11"
  shows "filter isDigit (formatCPF d) = d"
proof -
  have "filter isDigit (formatCPF d) =
      (if length d \<le> 3 then d
       else if length d \<le> 6 then slice d 0 3 @ sliceFrom d 3
       else if length d \<le> 9 then slice d 0 3 @ slice d 3 6 @ sliceFrom d 6
       else slice d 0 3 @ slice d 3 6 @ slice d 6 9 @ sliceFrom d 9)"
    unfolding formatCPF_def Let_def first_digits_fix [OF dig len]
    by (simp add: separators filter_digits_slice [OF dig] filter_digits_sliceFrom [OF dig]
          filter_digits_id [OF dig])
  also have "\<dots> = d"
    by (simp add: slice_sliceFrom sliceFrom_0)
  finally show ?thesis .
qed

lemma formatPhone_digits:
  assumes dig: "\<forall>c \<in> set d. isDigit c" and len: "length d \<le> 11"
  shows "filter isDigit (formatPhone d) = d"
proof -
  have "filter isDigit (formatPhone d) =
      (if length d \<le> 2 then d
       else if length d \<le> 7 then slice d 0 2 @ sliceFrom d 2
       else slice d 0 2 @ slice d 2 7 @ sliceFrom d 7)"
    unfolding formatPhone_def Let_def first_digits_fix [OF dig len]
    by (simp add: separators filter_digits_slice [OF dig] filter_digits_sliceFrom [OF dig]
          filter_digits_id [OF dig])
  also have "\<dots> = d"
    by (simp add: slice_sliceFrom sliceFrom_0)
  finally show ?thesis .
qed

lemma first_digits_props:
  "\<forall>c \<in> set (take 11 (filter isDigit s)). isDigit c" "length (take 11 (filter isDigit s)) \<le> 11"
  by (auto dest: in_set_takeD)

lemma formatCPF_first_digits: "formatCPF s = formatCPF (take 11 (filter isDigit s))"
proof -
  have "slice (removeNonDigits (take 11 (filter isDigit s))) 0 11 = slice (removeNonDigits s) 0 11"
    using first_digits_fix [OF first_digits_props] by (simp add: first_digits)
  then show ?thesis unfolding formatCPF_def by (simp only:)
qed

lemma formatPhone_first_digits: "formatPhone s = formatPhone (take 11 (filter isDigit s))"
proof -
  have "slice (removeNonDigits (take 11 (filter isDigit s))) 0 11 = slice (removeNonDigits s) 0 11"
    using first_digits_fix [OF first_digits_props] by (simp add: first_digits)
  then show ?thesis unfolding formatPhone_def by (simp only:)
qed

text \<open>
  C10. The masks are idempotent, and the output of each depends only on the first
  eleven digit characters of its input.
\<close>

theorem masks_idempotent:
  "formatCPF (formatCPF s) = formatCPF s \<and>
   formatPhone (formatPhone s) = formatPhone s \<and>
   (\<forall>t. take 11 (removeNonDigits s) = take 11 (removeNonDigits t) \<longrightarrow>
        formatCPF s = formatCPF t \<and> formatPhone s = formatPhone t)"
proof (intro conjI allI impI)
  let ?d = "take 11 (filter isDigit s)"
  have "take 11 (filter isDigit (formatCPF ?d)) = ?d"
    using formatCPF_digits [OF first_digits_props] by simp
  then have "formatCPF (formatCPF ?d) = formatCPF ?d"
    by (subst formatCPF_first_digits) (simp only:)
  then show "formatCPF (formatCPF s) = formatCPF s"
    by (simp only: formatCPF_first_digits [of s])
  have "take 11 (filter isDigit (formatPhone ?d)) = ?d"
    using formatPhone_digits [OF first_digits_props] by simp
  then have "formatPhone (formatPhone ?d) = formatPhone ?d"
    by (subst formatPhone_first_digits) (simp only:)
  then show "formatPhone (formatPhone s) = formatPhone s"
    by (simp only: formatPhone_first_digits [of s])
next
  fix t assume "take 11 (removeNonDigits s) = take 11 (removeNonDigits t)"
  then have e: "take 11 (filter isDigit s) = take 11 (filter isDigit t)"
    by (simp add: removeNonDigits_def)
  show "formatCPF s = formatCPF t"
    by (subst formatCPF_first_digits, subst (2) formatCPF_first_digits) (simp only: e)
  show "formatPhone s = formatPhone t"
    by (subst formatPhone_first_digits, subst (2) formatPhone_first_digits) (simp only: e)
qed

theorem masks_idempotent_witness:
  "formatCPF (formatCPF ''52998224725'') = formatCPF ''52998224725'' \<and>
   formatPhone (formatPhone ''11999999999'') = formatPhone ''11999999999'' \<and>
   formatCPF ''529.982.247-25'' = formatCPF ''52998224725 (9)'' \<and>
   formatPhone ''529.982.247-25'' = formatPhone ''52998224725 (9)''"
proof -
  have "take 11 (removeNonDigits ''529.982.247-25'') = take 11 (removeNonDigits ''52998224725 (9)'')"
    by (simp add: removeNonDigits_def isDigit_def)
  then show ?thesis
    using masks_idempotent [of "''52998224725''"] masks_idempotent [of "''11999999999''"]
      masks_idempotent [of "''529.982.247-25''"] by blast
qed

section \<open>Listing applications\<close>

lemma getDb_available: "DATABASE_URL s \<Longrightarrow> getDb s = Some (pg s)"
  by (simp add: getDb_def)

lemma listApplications_available:
  assumes "DATABASE_URL s"
  shows "listApplications filters s =
     Inr (filter (\<lambda>a. case Option.bind filters f_vehicleType of
                         None \<Rightarrow> True | Some vt \<Rightarrow> vt = [] \<or> vt \<in> set (vehicleTypes a))
            (orderBy_desc_createdAt
               (filter (\<lambda>a.
                  (case Option.bind filters f_availability of
                     None \<Rightarrow> True | Some v \<Rightarrow> availability a = v) \<and>
                  (case Option.bind filters f_startDate of
                     None \<Rightarrow> True | Some t \<Rightarrow> createdAt a \<ge> t) \<and>
                  (case Option.bind filters f_endDate of
                     None \<Rightarrow> True | Some t \<Rightarrow> createdAt a \<le> t))
                (applications (pg s)))))"
  unfolding listApplications_def getDb_available [OF assms] Let_def
  by (cases "Option.bind filters f_availability"; cases "Option.bind filters f_startDate";
      cases "Option.bind filters f_endDate"; cases "Option.bind filters f_vehicleType")
     (simp_all add: and_conditions_def [abs_def])

lemma withoutVehicleType_binds:
  "Option.bind (withoutVehicleType filters) f_vehicleType = None"
  "Option.bind (withoutVehicleType filters) f_availability = Option.bind filters f_availability"
  "Option.bind (withoutVehicleType filters) f_startDate = Option.bind filters f_startDate"
  "Option.bind (withoutVehicleType filters) f_endDate = Option.bind filters f_endDate"
  by (cases filters; simp add: withoutVehicleType_def)+

lemma mset_orderBy: "mset (orderBy_desc_createdAt rows) = mset rows"
  by (simp add: orderBy_desc_createdAt_def)

lemma newestFirst_orderBy: "newestFirst (orderBy_desc_createdAt rows)"
proof -
  have "sorted (map (\<lambda>a. - createdAt a) (sort_key (\<lambda>a. - createdAt a) rows))"
    by (rule sorted_sort_key)
  then show ?thesis
    by (simp add: sorted_map newestFirst_def orderBy_desc_createdAt_def)
qed

lemma newestFirst_filter: "newestFirst rows \<Longrightarrow> newestFirst (filter p rows)"
  unfolding newestFirst_def by (rule sorted_wrt_filter)

lemma filter_known:
  assumes "\<forall>a \<in> set xs. q a"
  shows "filter p xs = filter (\<lambda>a. q a \<and> p a) xs"
  by (rule filter_cong) (use assms in auto)

lemma listApplications_split:
  assumes "DATABASE_URL s"
  shows "\<exists>results.
     results = orderBy_desc_createdAt
        (filter (satisfiesFilters (withoutVehicleType filters)) (applications (pg s))) \<and>
     listApplications (withoutVehicleType filters) s = Inr results \<and>
     listApplications filters s = Inr (filter (satisfiesFilters filters) results)"
proof -
  define vt where "vt = (\<lambda>a::Application. case Option.bind filters f_vehicleType of
                   None \<Rightarrow> True | Some vt \<Rightarrow> vt = [] \<or> vt \<in> set (vehicleTypes a))"
  define db where "db = (\<lambda>a::Application. (case Option.bind filters f_availability of
                     None \<Rightarrow> True | Some v \<Rightarrow> availability a = v) \<and>
                  (case Option.bind filters f_startDate of
                     None \<Rightarrow> True | Some t \<Rightarrow> createdAt a \<ge> t) \<and>
                  (case Option.bind filters f_endDate of
                     None \<Rightarrow> True | Some t \<Rightarrow> createdAt a \<le> t))"
  define results where "results = orderBy_desc_createdAt (filter db (applications (pg s)))"
  have sat: "satisfiesFilters filters = (\<lambda>a. db a \<and> vt a)"
    by (auto simp: satisfiesFilters_def fun_eq_iff db_def vt_def)
  have sat': "satisfiesFilters (withoutVehicleType filters) = db"
    by (auto simp: satisfiesFilters_def withoutVehicleType_binds fun_eq_iff db_def)
  have 1: "listApplications filters s = Inr (filter vt results)"
    unfolding vt_def db_def results_def by (rule listApplications_available [OF assms])
  have 2: "listApplications (withoutVehicleType filters) s = Inr results"
    unfolding db_def results_def
    by (simp add: listApplications_available [OF assms] withoutVehicleType_binds)
  have "set results = set (filter db (applications (pg s)))"
    unfolding results_def using mset_orderBy by (rule mset_eq_setD)
  then have "\<forall>a \<in> set results. db a" by simp
  then have 3: "filter vt results = filter (\<lambda>a. db a \<and> vt a) results"
    by (rule filter_known)
  have "results = orderBy_desc_createdAt (filter db (applications (pg s))) \<and>
     listApplications (withoutVehicleType filters) s = Inr results \<and>
     listApplications filters s = Inr (filter (\<lambda>a. db a \<and> vt a) results)"
    using 1 2 3 results_def by (simp only: simp_thms)
  then show ?thesis unfolding sat sat' by (rule exI)
qed

text \<open>
  C3, amended. With the database available, \<open>listApplications\<close> returns exactly the
  stored applications that satisfy every supplied filter (creation time not before the
  start date, not after the end date, availability equal to the given value, the
  vehicle type among the application's vehicle types), each once; an omitted filter
  imposes nothing, and neither does a vehicle type that is the empty string. The
  vehicle-type filter is applied to the list that the query without it returns.
\<close>

theorem listApplications_exact:
  assumes "DATABASE_URL s"
  shows "\<exists>rs results.
     listApplications filters s = Inr rs \<and>
     mset rs = mset (filter (satisfiesFilters filters) (applications (pg s))) \<and>
     listApplications (withoutVehicleType filters) s = Inr results \<and>
     rs = filter (satisfiesFilters filters) results"
proof -
  let ?rows = "applications (pg s)"
  let ?P = "satisfiesFilters filters"
  let ?Q = "satisfiesFilters (withoutVehicleType filters)"
  obtain results where
    r: "results = orderBy_desc_createdAt (filter ?Q ?rows)"
    and b: "listApplications (withoutVehicleType filters) s = Inr results"
    and a: "listApplications filters s = Inr (filter ?P results)"
    using listApplications_split [OF assms] by blast
  have imp: "?P x \<Longrightarrow> ?Q x" for x
    by (simp add: satisfiesFilters_def withoutVehicleType_binds)
  have "mset (filter ?P results) = mset (filter ?P (filter ?Q ?rows))"
    unfolding r by (simp only: mset_filter mset_orderBy)
  also have "filter ?P (filter ?Q ?rows) = filter ?P ?rows"
    unfolding filter_filter by (rule filter_cong) (use imp in auto)
  finally show ?thesis using a b by blast
qed

theorem listApplications_exact_witness:
  "\<exists>rs. listApplications
          (Some \<lparr> f_vehicleType = Some ''moto'', f_availability = Some dias_15,
                  f_startDate = Some 1500, f_endDate = Some 2000 \<rparr>) sampleServer = Inr rs \<and>
        mset rs = {# secondApplication #}"
proof -
  have u: "DATABASE_URL sampleServer" by (simp add: sampleServer_def)
  have "filter (satisfiesFilters
          (Some \<lparr> f_vehicleType = Some ''moto'', f_availability = Some dias_15,
                  f_startDate = Some 1500, f_endDate = Some 2000 \<rparr>))
          (applications (pg sampleServer)) = [secondApplication]"
    by (simp add: satisfiesFilters_def sampleServer_def sampleApplication_def secondApplication_def)
  then show ?thesis
    using listApplications_exact [OF u, of "Some \<lparr> f_vehicleType = Some ''moto'',
      f_availability = Some dias_15, f_startDate = Some 1500, f_endDate = Some 2000 \<rparr>"]
    by auto
qed

theorem listApplications_empty_vehicleType_counterexample:
  "listApplications
     (Some \<lparr> f_vehicleType = Some '''', f_availability = None,
             f_startDate = None, f_endDate = None \<rparr>) sampleServer
     = Inr [secondApplication, sampleApplication] \<and>
   filter (satisfiesFilters_spec
     (Some \<lparr> f_vehicleType = Some '''', f_availability = None,
             f_startDate = None, f_endDate = None \<rparr>)) (applications (pg sampleServer)) = []"
  by (simp add: listApplications_def getDb_def sampleServer_def orderBy_desc_createdAt_def
        satisfiesFilters_spec_def sampleApplication_def secondApplication_def)

text \<open>
  C8. With the database available, the list that \<open>listApplications\<close> returns is in
  decreasing order of creation time, for every combination of filters; the vehicle-type
  filter keeps the order of the list it is applied to.
\<close>

theorem listApplications_newestFirst:
  assumes "DATABASE_URL s"
  shows "\<exists>rs results.
     listApplications filters s = Inr rs \<and> newestFirst rs \<and>
     listApplications (withoutVehicleType filters) s = Inr results \<and> newestFirst results \<and>
     subseq rs results"
proof -
  obtain results where
    r: "results = orderBy_desc_createdAt
          (filter (satisfiesFilters (withoutVehicleType filters)) (applications (pg s)))"
    and b: "listApplications (withoutVehicleType filters) s = Inr results"
    and a: "listApplications filters s = Inr (filter (satisfiesFilters filters) results)"
    using listApplications_split [OF assms] by blast
  have n: "newestFirst results" unfolding r by (rule newestFirst_orderBy)
  then have "newestFirst (filter (satisfiesFilters filters) results)"
    by (rule newestFirst_filter)
  moreover have "subseq (filter (satisfiesFilters filters) results) results" by simp
  ultimately show ?thesis using a b n by blast
qed

theorem listApplications_newestFirst_witness:
  "\<exists>rs. listApplications None sampleServer = Inr rs \<and> newestFirst rs \<and>
        map createdAt rs = [2000, 1000]"
proof -
  have u: "DATABASE_URL sampleServer" by (simp add: sampleServer_def)
  have "listApplications None sampleServer = Inr [secondApplication, sampleApplication]"
    by (simp add: listApplications_def getDb_def sampleServer_def orderBy_desc_createdAt_def
        sampleApplication_def secondApplication_def)
  then show ?thesis
    using listApplications_newestFirst [OF u, of None]
    by (auto simp: sampleApplication_def secondApplication_def)
qed

section \<open>The admin gate\<close>

lemma adminProcedure_cases:
  "adminProcedure ctx next s =
     (case ctx_user ctx of
        None \<Rightarrow> (Inl Unauthenticated, s)
      | Some u \<Rightarrow>
          if role u = admin then next s
          else (Inl (TRPCError FORBIDDEN ''Acesso restrito a administradores''), s))"
  by (simp add: adminProcedure_def protectedProcedure_def split: option.split)

lemma adminProcedure_admin:
  "ctx_user ctx = Some u \<Longrightarrow> role u = admin \<Longrightarrow> adminProcedure ctx next s = next s"
  by (simp add: adminProcedure_cases)

section \<open>Status updates\<close>

lemma filter_appId_map_status:
  "filter (\<lambda>a. appId a = i) (map (\<lambda>a. if appId a = j then a\<lparr>status := st\<rparr> else a) rows)
     = map (\<lambda>a. if appId a = j then a\<lparr>status := st\<rparr> else a) (filter (\<lambda>a. appId a = i) rows)"
  by (induction rows) auto

text \<open>
  C1. For every application id (an id of the \<^verbatim>\<open>serial\<close> column) and every target
  status, with the database available and an administrator calling,
  \<open>applications.updateStatus\<close> succeeds and the stored application with that id has
  the target status afterwards, whatever its status was before; every other field and
  every other application is left as it was. For a number outside the range of the
  column, which no application has as its id, the call fails and changes nothing.
\<close>

theorem updateStatus_any_transition:
  assumes "DATABASE_URL s" and "ctx_user ctx = Some u" and "role u = admin"
  shows "(int4 i \<longrightarrow> (\<exists>s'. applications_updateStatus ctx i st s = (Inr True, s') \<and>
      updateApplicationStatus i st s = (Inr (), s') \<and>
      DATABASE_URL s' \<and>
      length (applications (pg s')) = length (applications (pg s)) \<and>
      (\<forall>k < length (applications (pg s)).
          applications (pg s') ! k =
            (if appId (applications (pg s) ! k) = i
             then (applications (pg s) ! k)\<lparr>status := st\<rparr>
             else applications (pg s) ! k)) \<and>
      (\<forall>a. getApplicationById i s = Inr (Some a) \<longrightarrow>
           getApplicationById i s' = Inr (Some (a\<lparr>status := st\<rparr>))))) \<and>
     (\<not> int4 i \<longrightarrow> applications_updateStatus ctx i st s = (Inl DatabaseError, s))"
proof (intro conjI impI)
  assume "\<not> int4 i"
  then show "applications_updateStatus ctx i st s = (Inl DatabaseError, s)"
    using assms(1)
    by (simp add: applications_updateStatus_def adminProcedure_admin [OF assms(2,3)]
        updateApplicationStatus_def getDb_def)
next
  assume r4: "int4 i"
  define f where "f = (\<lambda>a::Application. if appId a = i then a\<lparr>status := st\<rparr> else a)"
  define s' where "s' = s\<lparr>pg := (pg s)\<lparr>applications := map f (applications (pg s))\<rparr>\<rparr>"
  have db: "getDb s = Some (pg s)" using assms(1) by (simp add: getDb_def)
  have up: "DATABASE_URL s'" using assms(1) by (simp add: s'_def)
  have rows: "applications (pg s') = map f (applications (pg s))" by (simp add: s'_def)
  have db': "getDb s' = Some (pg s')" using up by (simp add: getDb_def)
  have u: "updateApplicationStatus i st s = (Inr (), s')"
    using r4 by (simp add: updateApplicationStatus_def db s'_def f_def)
  have r: "applications_updateStatus ctx i st s = (Inr True, s')"
    by (simp add: applications_updateStatus_def adminProcedure_admin [OF assms(2,3)] u)
  have g: "getApplicationById i s' = Inr (Some (a\<lparr>status := st\<rparr>))"
    if "getApplicationById i s = Inr (Some a)" for a
  proof -
    have "\<exists>rest. filter (\<lambda>a. appId a = i) (applications (pg s)) = a # rest"
    proof (cases "filter (\<lambda>a. appId a = i) (applications (pg s))")
      case Nil
      then show ?thesis using that r4 by (simp add: getApplicationById_def db)
    next
      case (Cons x rest)
      then show ?thesis using that r4 by (simp add: getApplicationById_def db)
    qed
    then obtain rest where e: "filter (\<lambda>a. appId a = i) (applications (pg s)) = a # rest" ..
    then have "a \<in> set (filter (\<lambda>a. appId a = i) (applications (pg s)))" by simp
    then have "appId a = i" by simp
    then show ?thesis
      using r4 by (simp add: getApplicationById_def db' rows f_def filter_appId_map_status e)
  qed
  have len: "length (applications (pg s')) = length (applications (pg s))"
    by (simp add: rows)
  have nth: "\<forall>k < length (applications (pg s)).
          applications (pg s') ! k =
            (if appId (applications (pg s) ! k) = i
             then (applications (pg s) ! k)\<lparr>status := st\<rparr>
             else applications (pg s) ! k)"
    by (simp add: rows f_def)
  show "\<exists>s'. applications_updateStatus ctx i st s = (Inr True, s') \<and>
      updateApplicationStatus i st s = (Inr (), s') \<and>
      DATABASE_URL s' \<and>
      length (applications (pg s')) = length (applications (pg s)) \<and>
      (\<forall>k < length (applications (pg s)).
          applications (pg s') ! k =
            (if appId (applications (pg s) ! k) = i
             then (applications (pg s) ! k)\<lparr>status := st\<rparr>
             else applications (pg s) ! k)) \<and>
      (\<forall>a. getApplicationById i s = Inr (Some a) \<longrightarrow>
           getApplicationById i s' = Inr (Some (a\<lparr>status := st\<rparr>)))"
    using u r up len nth g by blast
qed

theorem updateStatus_any_transition_witness:
  "(\<exists>s'. applications_updateStatus createAdminContext 2 pendente sampleServer = (Inr True, s') \<and>
        map status (applications (pg sampleServer)) = [pendente, aprovado] \<and>
        map status (applications (pg s')) = [pendente, pendente]) \<and>
   applications_updateStatus createAdminContext 2147483648 pendente sampleServer
     = (Inl DatabaseError, sampleServer)"
proof -
  have i2: "int4 2" "\<not> int4 2147483648" by (simp_all add: int4_def)
  have a: "DATABASE_URL sampleServer" by (simp add: sampleServer_def)
  have b: "ctx_user createAdminContext =
      Some (sampleUser\<lparr> userId := 1, openId := ''admin-user'', userName := Some ''Admin User'',
              userEmail := Some ''admin@example.com'', role := admin \<rparr>)"
    by (simp add: createAdminContext_def)
  have c: "role (sampleUser\<lparr> userId := 1, openId := ''admin-user'',
      userName := Some ''Admin User'', userEmail := Some ''admin@example.com'',
      role := admin \<rparr>) = admin"
    by simp
  obtain s' where r: "applications_updateStatus createAdminContext 2 pendente sampleServer
        = (Inr True, s')"
    and k: "\<forall>k < length (applications (pg sampleServer)).
          applications (pg s') ! k =
            (if appId (applications (pg sampleServer) ! k) = 2
             then (applications (pg sampleServer) ! k)\<lparr>status := pendente\<rparr>
             else applications (pg sampleServer) ! k)"
    and l: "length (applications (pg s')) = length (applications (pg sampleServer))"
    using updateStatus_any_transition [OF a b c, of 2 pendente] i2(1) by blast
  have big: "applications_updateStatus createAdminContext 2147483648 pendente sampleServer
     = (Inl DatabaseError, sampleServer)"
    using updateStatus_any_transition [OF a b c, of 2147483648 pendente] i2(2) by blast
  have rows: "applications (pg sampleServer) = [sampleApplication, secondApplication]"
    by (simp add: sampleServer_def)
  have "length (applications (pg s')) = 2" using l rows by simp
  then obtain x y where xy: "applications (pg s') = [x, y]"
    by (metis (no_types, opaque_lifting) One_nat_def Suc_1 length_0_conv length_Suc_conv)
  have "x = applications (pg s') ! 0" "y = applications (pg s') ! 1" by (simp_all add: xy)
  then have "status x = pendente" "status y = pendente"
    using k rows by (simp_all add: sampleApplication_def secondApplication_def)
  then have "map status (applications (pg sampleServer)) = [pendente, aprovado] \<and>
        map status (applications (pg s')) = [pendente, pendente]"
    using rows xy by (simp add: sampleApplication_def secondApplication_def)
  then have "\<exists>s'. applications_updateStatus createAdminContext 2 pendente sampleServer
        = (Inr True, s') \<and>
        map status (applications (pg sampleServer)) = [pendente, aprovado] \<and>
        map status (applications (pg s')) = [pendente, pendente]"
    using r by (intro exI [of _ s']) (simp only: simp_thms)
  then show ?thesis using big by (rule conjI)
qed

section \<open>Statistics\<close>

lemma length_filter_status:
  "length (filter (\<lambda>a. status a = x) rows) = count_list (map status rows) x"
  by (induction rows) auto

lemma length_by_status:
  "length rows =
     count_list (map status rows) pendente + count_list (map status rows) em_analise +
     count_list (map status rows) aprovado + count_list (map status rows) rejeitado"
proof (induction rows)
  case Nil
  show ?case by simp
next
  case (Cons a rows)
  then show ?case by (cases "status a") simp_all
qed

text \<open>
  C5. With the database available, \<open>getApplicationStats\<close> returns five counts:
  \<open>total\<close> is the number of stored applications, and each of \<open>pendente\<close>,
  \<open>em_analise\<close>, \<open>aprovado\<close>, \<open>rejeitado\<close> is the number of stored applications with
  that status; \<open>total\<close> is the sum of the four.
\<close>

theorem getApplicationStats_counts:
  assumes "DATABASE_URL s"
  shows "\<exists>r. getApplicationStats s = Inr r \<and>
     st_total r = int (length (applications (pg s))) \<and>
     st_pendente r = int (count_list (map status (applications (pg s))) pendente) \<and>
     st_em_analise r = int (count_list (map status (applications (pg s))) em_analise) \<and>
     st_aprovado r = int (count_list (map status (applications (pg s))) aprovado) \<and>
     st_rejeitado r = int (count_list (map status (applications (pg s))) rejeitado) \<and>
     st_total r = st_pendente r + st_em_analise r + st_aprovado r + st_rejeitado r"
proof -
  define rows where "rows = applications (pg s)"
  define r where "r =
     \<lparr> st_total = int (length rows),
       st_pendente = int (length (filter (\<lambda>a. status a = pendente) rows)),
       st_em_analise = int (length (filter (\<lambda>a. status a = em_analise) rows)),
       st_aprovado = int (length (filter (\<lambda>a. status a = aprovado) rows)),
       st_rejeitado = int (length (filter (\<lambda>a. status a = rejeitado) rows)) \<rparr>"
  have g: "getApplicationStats s = Inr r"
    using assms by (simp add: getApplicationStats_def getDb_def r_def rows_def Let_def)
  have t: "st_total r = int (length rows)" by (simp add: r_def)
  have p: "st_pendente r = int (count_list (map status rows) pendente)"
    by (simp add: r_def length_filter_status)
  have e: "st_em_analise r = int (count_list (map status rows) em_analise)"
    by (simp add: r_def length_filter_status)
  have a: "st_aprovado r = int (count_list (map status rows) aprovado)"
    by (simp add: r_def length_filter_status)
  have j: "st_rejeitado r = int (count_list (map status rows) rejeitado)"
    by (simp add: r_def length_filter_status)
  have sum: "st_total r = st_pendente r + st_em_analise r + st_aprovado r + st_rejeitado r"
    unfolding t p e a j by (subst length_by_status) simp
  show ?thesis using g t p e a j sum unfolding rows_def by blast
qed

theorem getApplicationStats_counts_witness:
  "getApplicationStats sampleServer =
     Inr \<lparr> st_total = 2, st_pendente = 1, st_em_analise = 0, st_aprovado = 1, st_rejeitado = 0 \<rparr>"
proof -
  have u: "DATABASE_URL sampleServer" by (simp add: sampleServer_def)
  have rows: "map status (applications (pg sampleServer)) = [pendente, aprovado]"
    by (simp add: sampleServer_def sampleApplication_def secondApplication_def)
  obtain r where g: "getApplicationStats sampleServer = Inr r"
    and c: "st_total r = int (length (applications (pg sampleServer)))"
      "st_pendente r = int (count_list (map status (applications (pg sampleServer))) pendente)"
      "st_em_analise r = int (count_list (map status (applications (pg sampleServer))) em_analise)"
      "st_aprovado r = int (count_list (map status (applications (pg sampleServer))) aprovado)"
      "st_rejeitado r = int (count_list (map status (applications (pg sampleServer))) rejeitado)"
    using getApplicationStats_counts [OF u] by blast
  have "length (applications (pg sampleServer)) = 2" by (simp add: sampleServer_def)
  then have "r = \<lparr> st_total = 2, st_pendente = 1, st_em_analise = 0, st_aprovado = 1,
      st_rejeitado = 0 \<rparr>"
    using c unfolding rows by simp
  then show ?thesis using g by simp
qed

section \<open>Reading one application\<close>

lemma getApplicationById_available:
  assumes "DATABASE_URL s" and "int4 i"
  shows "getApplicationById i s =
     (case filter (\<lambda>a. appId a = i) (applications (pg s)) of
        [] \<Rightarrow> Inr None | application # _ \<Rightarrow> Inr (Some application))"
  using assms by (simp add: getApplicationById_def getDb_def)

lemma filter_distinct_key:
  assumes "distinct (map k xs)" and "a \<in> set xs"
  shows "filter (\<lambda>x. k x = k a) xs = [a]"
  using assms
proof (induction xs)
  case Nil
  then show ?case by simp
next
  case (Cons x xs)
  show ?case
  proof (cases "x = a")
    case True
    have "k a \<notin> k ` set xs" using Cons.prems(1) True by simp
    then have "\<forall>y \<in> set xs. k y \<noteq> k a" by (metis imageI)
    then have "filter (\<lambda>x. k x = k a) xs = []"
      by (simp add: filter_empty_conv)
    then show ?thesis using True by simp
  next
    case False
    then have "a \<in> set xs" using Cons.prems(2) by simp
    moreover have "k x \<noteq> k a" using Cons.prems(1) calculation by force
    ultimately show ?thesis using Cons by simp
  qed
qed

lemma applications_getById_state: "snd (applications_getById ctx i s) = s"
  by (simp add: applications_getById_def adminProcedure_cases query_def split: option.split)

text \<open>
  For an id in the range of the \<^verbatim>\<open>serial\<close> column: \<open>applications.getById\<close> never
  changes the stored state; for an administrator, with the database available, it
  fails with NOT_FOUND and the message of the source exactly when no stored
  application has the id, and otherwise returns a stored application with that id,
  unchanged, which is the one with that id when ids are unique.
\<close>

lemma getById_in_range:
  "snd (applications_getById ctx i s) = s \<and>
   (DATABASE_URL s \<and> ctx_user ctx = Some u \<and> role u = admin \<and> int4 i \<longrightarrow>
      (fst (applications_getById ctx i s)
          = Inl (TRPCError NOT_FOUND (''Candidatura n'' @ [CHR 0xE3] @ ''o encontrada''))
        \<longleftrightarrow> (\<forall>a \<in> set (applications (pg s)). appId a \<noteq> i)) \<and>
      ((\<exists>a \<in> set (applications (pg s)). appId a = i) \<longrightarrow>
         (\<exists>a \<in> set (applications (pg s)). appId a = i \<and>
              fst (applications_getById ctx i s) = Inr a)) \<and>
      (distinct (map appId (applications (pg s))) \<longrightarrow>
         (\<forall>a \<in> set (applications (pg s)). appId a = i \<longrightarrow>
              fst (applications_getById ctx i s) = Inr a)))"
proof (intro conjI impI)
  show "snd (applications_getById ctx i s) = s" by (rule applications_getById_state)
next
  assume h: "DATABASE_URL s \<and> ctx_user ctx = Some u \<and> role u = admin \<and> int4 i"
  define found where "found = filter (\<lambda>a. appId a = i) (applications (pg s))"
  have r: "fst (applications_getById ctx i s) =
      (case found of [] \<Rightarrow> Inl notFound | a # _ \<Rightarrow> Inr a)"
    using h by (simp add: applications_getById_def adminProcedure_cases query_def
        getApplicationById_available found_def split: list.split)
  have nf: "notFound = TRPCError NOT_FOUND (''Candidatura n'' @ [CHR 0xE3] @ ''o encontrada'')"
    by (simp add: notFound_def)
  have e: "found = [] \<longleftrightarrow> (\<forall>a \<in> set (applications (pg s)). appId a \<noteq> i)"
    by (auto simp: found_def filter_empty_conv)
  show "fst (applications_getById ctx i s)
          = Inl (TRPCError NOT_FOUND (''Candidatura n'' @ [CHR 0xE3] @ ''o encontrada''))
        \<longleftrightarrow> (\<forall>a \<in> set (applications (pg s)). appId a \<noteq> i)"
    unfolding r nf [symmetric] e [symmetric] by (cases found) simp_all
  show "\<exists>a \<in> set (applications (pg s)). appId a = i \<and> fst (applications_getById ctx i s) = Inr a"
    if "\<exists>a \<in> set (applications (pg s)). appId a = i"
  proof (cases found)
    case Nil
    then show ?thesis using that e by blast
  next
    case (Cons a rest)
    then have "a \<in> set found" by simp
    then have "a \<in> set (applications (pg s))" "appId a = i" by (simp_all add: found_def)
    moreover have "fst (applications_getById ctx i s) = Inr a" by (simp add: r Cons)
    ultimately show ?thesis by blast
  qed
  show "\<forall>a \<in> set (applications (pg s)). appId a = i \<longrightarrow>
      fst (applications_getById ctx i s) = Inr a"
    if d: "distinct (map appId (applications (pg s)))"
  proof (intro ballI impI)
    fix a assume a: "a \<in> set (applications (pg s))" and "appId a = i"
    then have "found = [a]"
      unfolding found_def using filter_distinct_key [OF d a] by simp
    then show "fst (applications_getById ctx i s) = Inr a" by (simp add: r)
  qed
qed

lemma getById_in_range_sample:
  "fst (applications_getById createAdminContext 7 sampleServer)
      = Inl (TRPCError NOT_FOUND (''Candidatura n'' @ [CHR 0xE3] @ ''o encontrada'')) \<and>
   fst (applications_getById createAdminContext 2 sampleServer) = Inr secondApplication \<and>
   snd (applications_getById createAdminContext 2 sampleServer) = sampleServer"
proof -
  define u where "u = sampleUser\<lparr> userId := 1, openId := ''admin-user'',
      userName := Some ''Admin User'', userEmail := Some ''admin@example.com'', role := admin \<rparr>"
  have h: "DATABASE_URL sampleServer \<and> ctx_user createAdminContext = Some u \<and> role u = admin"
    by (simp add: sampleServer_def createAdminContext_def u_def)
  have i4: "int4 7" "int4 2" by (simp_all add: int4_def)
  have rows: "applications (pg sampleServer) = [sampleApplication, secondApplication]"
    by (simp add: sampleServer_def)
  have ids: "appId sampleApplication = 1" "appId secondApplication = 2"
    by (simp_all add: sampleApplication_def secondApplication_def)
  have 1: "\<forall>a \<in> set (applications (pg sampleServer)). appId a \<noteq> 7"
    by (simp add: rows ids)
  have 2: "distinct (map appId (applications (pg sampleServer)))"
    by (simp add: rows ids)
  have 3: "secondApplication \<in> set (applications (pg sampleServer))"
    by (simp add: rows)
  show ?thesis
    using getById_in_range [of createAdminContext 7 sampleServer u]
      getById_in_range [of createAdminContext 2 sampleServer u] h i4 1 2 3 ids(2)
    by blast
qed

lemma getById_rejected_id:
  assumes "DATABASE_URL s" and "ctx_user ctx = Some u" and "role u = admin" and "\<not> int4 i"
  shows "applications_getById ctx i s = (Inl DatabaseError, s)"
  using assms
  by (simp add: applications_getById_def adminProcedure_cases query_def
      getApplicationById_def getDb_def)

text \<open>
  C9. \<open>applications.getById\<close> is to fail with NOT_FOUND exactly when no application
  with the given id exists. The input schema \<^verbatim>\<open>z.number()\<close> lets every number
  through, and the query compares it with the \<^verbatim>\<open>serial\<close> column: at the id
  2147483648, which no stored application has, an administrator's call fails with the
  database's error and not with NOT_FOUND; the stored state is unchanged.
\<close>

theorem getById_out_of_range:
  "applications_getById createAdminContext 2147483648 sampleServer
      = (Inl DatabaseError, sampleServer) \<and>
   2147483648 \<notin> set (map appId (applications (pg sampleServer))) \<and>
   DatabaseError \<noteq> notFound"
proof -
  have a: "DATABASE_URL sampleServer" by (simp add: sampleServer_def)
  have b: "ctx_user createAdminContext =
      Some (sampleUser\<lparr> userId := 1, openId := ''admin-user'', userName := Some ''Admin User'',
              userEmail := Some ''admin@example.com'', role := admin \<rparr>)"
    by (simp add: createAdminContext_def)
  have c: "role (sampleUser\<lparr> userId := 1, openId := ''admin-user'',
      userName := Some ''Admin User'', userEmail := Some ''admin@example.com'',
      role := admin \<rparr>) = admin"
    by simp
  have d: "\<not> int4 2147483648" by (simp add: int4_def)
  have "2147483648 \<notin> set (map appId (applications (pg sampleServer)))"
    by (simp add: sampleServer_def sampleApplication_def secondApplication_def)
  moreover have "DatabaseError \<noteq> notFound" by (simp add: notFound_def)
  ultimately show ?thesis using getById_rejected_id [OF a b c d] by blast
qed

section \<open>Who may call what\<close>

text \<open>
  C6. Each of \<open>applications.list\<close>, \<open>getById\<close>, \<open>updateStatus\<close> and \<open>stats\<close> fails for
  a caller who is not an administrator and leaves the state as it is: an
  authenticated user with another role gets FORBIDDEN with the message
  \<^verbatim>\<open>Acesso restrito a administradores\<close>, a caller without a user fails as well. For an
  administrator the gate runs the handler: the outcome of the procedure is the
  outcome of its handler.
\<close>

theorem admin_gate:
  "(ctx_user ctx = None \<longrightarrow>
      applications_list newDate ctx inp s = (Inl Unauthenticated, s) \<and>
      applications_getById ctx i s = (Inl Unauthenticated, s) \<and>
      applications_updateStatus ctx i st s = (Inl Unauthenticated, s) \<and>
      applications_stats ctx s = (Inl Unauthenticated, s)) \<and>
   (ctx_user ctx = Some u \<and> role u \<noteq> admin \<longrightarrow>
      applications_list newDate ctx inp s
        = (Inl (TRPCError FORBIDDEN ''Acesso restrito a administradores''), s) \<and>
      applications_getById ctx i s
        = (Inl (TRPCError FORBIDDEN ''Acesso restrito a administradores''), s) \<and>
      applications_updateStatus ctx i st s
        = (Inl (TRPCError FORBIDDEN ''Acesso restrito a administradores''), s) \<and>
      applications_stats ctx s
        = (Inl (TRPCError FORBIDDEN ''Acesso restrito a administradores''), s)) \<and>
   (ctx_user ctx = Some u \<and> role u = admin \<longrightarrow>
      adminProcedure ctx next s = next s \<and>
      applications_list newDate ctx inp s
        = (listApplications
             (map_option (\<lambda>i. \<lparr> f_vehicleType = li_vehicleType i,
                                  f_availability = li_availability i,
                                  f_startDate = toDate newDate (li_startDate i),
                                  f_endDate = toDate newDate (li_endDate i) \<rparr>) inp) s, s) \<and>
      applications_getById ctx i s
        = (case getApplicationById i s of
             Inl e \<Rightarrow> Inl e | Inr None \<Rightarrow> Inl notFound | Inr (Some a) \<Rightarrow> Inr a, s) \<and>
      applications_updateStatus ctx i st s
        = (map_sum (\<lambda>e. e) (\<lambda>_. True) (fst (updateApplicationStatus i st s)),
           snd (updateApplicationStatus i st s)) \<and>
      applications_stats ctx s = (getApplicationStats s, s))"
proof (intro conjI impI)
  assume "ctx_user ctx = None"
  then show "applications_list newDate ctx inp s = (Inl Unauthenticated, s)"
    "applications_getById ctx i s = (Inl Unauthenticated, s)"
    "applications_updateStatus ctx i st s = (Inl Unauthenticated, s)"
    "applications_stats ctx s = (Inl Unauthenticated, s)"
    by (simp_all add: applications_list_def applications_getById_def
        applications_updateStatus_def applications_stats_def adminProcedure_cases)
next
  assume "ctx_user ctx = Some u \<and> role u \<noteq> admin"
  then show "applications_list newDate ctx inp s
        = (Inl (TRPCError FORBIDDEN ''Acesso restrito a administradores''), s)"
    "applications_getById ctx i s
        = (Inl (TRPCError FORBIDDEN ''Acesso restrito a administradores''), s)"
    "applications_updateStatus ctx i st s
        = (Inl (TRPCError FORBIDDEN ''Acesso restrito a administradores''), s)"
    "applications_stats ctx s
        = (Inl (TRPCError FORBIDDEN ''Acesso restrito a administradores''), s)"
    by (simp_all add: applications_list_def applications_getById_def
        applications_updateStatus_def applications_stats_def adminProcedure_cases)
next
  assume h: "ctx_user ctx = Some u \<and> role u = admin"
  show "adminProcedure ctx next s = next s" using h by (simp add: adminProcedure_cases)
  show "applications_list newDate ctx inp s
        = (listApplications
             (map_option (\<lambda>i. \<lparr> f_vehicleType = li_vehicleType i,
                                  f_availability = li_availability i,
                                  f_startDate = toDate newDate (li_startDate i),
                                  f_endDate = toDate newDate (li_endDate i) \<rparr>) inp) s, s)"
    using h by (cases inp) (simp_all add: applications_list_def adminProcedure_cases query_def)
  show "applications_getById ctx i s
        = (case getApplicationById i s of
             Inl e \<Rightarrow> Inl e | Inr None \<Rightarrow> Inl notFound | Inr (Some a) \<Rightarrow> Inr a, s)"
    using h by (simp add: applications_getById_def adminProcedure_cases query_def)
  show "applications_updateStatus ctx i st s
        = (map_sum (\<lambda>e. e) (\<lambda>_. True) (fst (updateApplicationStatus i st s)),
           snd (updateApplicationStatus i st s))"
    using h by (simp add: applications_updateStatus_def adminProcedure_cases
        split: prod.split sum.split)
  show "applications_stats ctx s = (getApplicationStats s, s)"
    using h by (simp add: applications_stats_def adminProcedure_cases query_def)
qed

theorem admin_gate_witness:
  "applications_list (\<lambda>str. 0) createUserContext None sampleServer
      = (Inl (TRPCError FORBIDDEN ''Acesso restrito a administradores''), sampleServer) \<and>
   applications_list (\<lambda>str. 0) createPublicContext None sampleServer
      = (Inl Unauthenticated, sampleServer) \<and>
   applications_stats createAdminContext sampleServer
      = (getApplicationStats sampleServer, sampleServer)"
proof -
  define a where "a = sampleUser\<lparr> userId := 1, openId := ''admin-user'',
      userName := Some ''Admin User'', userEmail := Some ''admin@example.com'', role := admin \<rparr>"
  have 1: "ctx_user createUserContext = Some sampleUser \<and> role sampleUser \<noteq> admin"
    by (simp add: createUserContext_def sampleUser_def)
  have 2: "ctx_user createPublicContext = None"
    by (simp add: createPublicContext_def)
  have 3: "ctx_user createAdminContext = Some a \<and> role a = admin"
    by (simp add: createAdminContext_def a_def)
  show ?thesis
    using admin_gate [where ctx = createUserContext and u = sampleUser
        and newDate = "\<lambda>str. 0" and inp = None and s = sampleServer]
      admin_gate [where ctx = createPublicContext
        and newDate = "\<lambda>str. 0" and inp = None and s = sampleServer]
      admin_gate [where ctx = createAdminContext and u = a and s = sampleServer] 1 2 3
    by blast
qed

section \<open>Submitting an application\<close>

lemma nullable_None_iff: "nullable column v = Some None \<longleftrightarrow> v = None"
  by (cases v) (auto simp: nullable_def)

lemma nullable_Some_iff:
  "nullable column v = Some (Some x') \<longleftrightarrow> (\<exists>x. v = Some x \<and> column x = Some x')"
  by (cases v) (auto simp: nullable_def)

lemma columnValues_Some:
  assumes "columnValues data = Some v"
  shows "varchar 255 (new_fullName data) = Some (new_fullName v)"
    and "varchar 20 (new_phone data) = Some (new_phone v)"
    and "nullable (varchar 320) (new_email data) = Some (new_email v)"
    and "varchar 14 (new_cpf data) = Some (new_cpf v)"
    and "varchar 100 (new_city data) = Some (new_city v)"
    and "varchar 2 (new_state data) = Some (new_state v)"
    and "nullable pg_text (new_notes data) = Some (new_notes v)"
    and "int4 (new_experienceYears data)"
    and "new_experienceYears v = new_experienceYears data"
    and "new_vehicleTypes v = new_vehicleTypes data"
    and "new_status v = new_status data"
  using assms unfolding columnValues_def
  by (auto simp: bind_eq_Some_conv split: if_splits)

lemma orNull_None_iff: "orNull v = None \<longleftrightarrow> v = None \<or> v = Some ''''"
  by (auto simp: orNull_def split: option.splits)

lemma orNull_Some: "x \<noteq> '''' \<Longrightarrow> orNull (Some x) = Some x"
  by (simp add: orNull_def)

lemma applications_submit_cases:
  "applications_submit zodEmail now ctx inp s =
     (if \<not> submitInputValid zodEmail inp then (Inl ZodError, s)
      else if \<not> DATABASE_URL s then (Inl notAvailable, s)
      else (case columnValues (submitValues inp) of
              None \<Rightarrow> (Inl DatabaseError, s)
            | Some v \<Rightarrow>
                (Inr \<lparr> success = True, newId = applications_id_seq (pg s) \<rparr>,
                 s\<lparr>pg := (pg s)\<lparr>applications := applications (pg s)
                                   @ [insertedRow (applications_id_seq (pg s)) now v],
                               applications_id_seq := applications_id_seq (pg s) + 1\<rparr>\<rparr>)))"
  by (simp add: applications_submit_def publicProcedure_def createApplication_def getDb_def
      Let_def insertedRow_def split: option.split)

text \<open>
  C7. \<open>applications.submit\<close> does not look at the caller: it runs the same with and
  without a user. It succeeds exactly when the input passes the schema, the database
  is available and the columns take the values. Every submission that succeeds
  appends one record to the stored applications: its status is \<open>pendente\<close>, its email
  is null exactly when the input email is absent or the empty string, likewise for
  the notes, and the result is \<open>success\<close> with the id of the new record. A submission
  that fails stores nothing.
\<close>

theorem submit_public_pendente:
  "applications_submit zodEmail now ctx inp s
     = applications_submit zodEmail now createPublicContext inp s \<and>
   ((\<exists>r s'. applications_submit zodEmail now ctx inp s = (Inr r, s')) \<longleftrightarrow>
      submitInputValid zodEmail inp \<and> DATABASE_URL s \<and>
      columnValues (submitValues inp) \<noteq> None) \<and>
   (\<forall>r s'. applications_submit zodEmail now ctx inp s = (Inr r, s') \<longrightarrow>
      (\<exists>row.
         r = \<lparr> success = True, newId = appId row \<rparr> \<and>
         DATABASE_URL s' \<and>
         applications (pg s') = applications (pg s) @ [row] \<and>
         appId row = applications_id_seq (pg s) \<and>
         status row = pendente \<and>
         (email row = None \<longleftrightarrow> in_email inp = None \<or> in_email inp = Some '''') \<and>
         (\<forall>x. in_email inp = Some x \<and> x \<noteq> '''' \<longrightarrow>
              (\<exists>x'. varchar 320 x = Some x' \<and> email row = Some x')) \<and>
         (appNotes row = None \<longleftrightarrow> in_notes inp = None \<or> in_notes inp = Some '''') \<and>
         (\<forall>x. in_notes inp = Some x \<and> x \<noteq> '''' \<longrightarrow> appNotes row = Some x) \<and>
         varchar 255 (in_fullName inp) = Some (fullName row) \<and>
         varchar 20 (in_phone inp) = Some (phone row) \<and>
         varchar 14 (in_cpf inp) = Some (cpf row) \<and>
         vehicleTypes row = in_vehicleTypes inp \<and>
         experienceYears row = in_experienceYears inp \<and>
         createdAt row = now)) \<and>
   (\<forall>e s'. applications_submit zodEmail now ctx inp s = (Inl e, s') \<longrightarrow> s' = s)"
proof (intro conjI allI impI)
  show "applications_submit zodEmail now ctx inp s
     = applications_submit zodEmail now createPublicContext inp s"
    by (simp add: applications_submit_def publicProcedure_def)
next
  show "(\<exists>r s'. applications_submit zodEmail now ctx inp s = (Inr r, s')) \<longleftrightarrow>
      submitInputValid zodEmail inp \<and> DATABASE_URL s \<and>
      columnValues (submitValues inp) \<noteq> None"
    by (subst applications_submit_cases) (auto split: option.split)
next
  fix e s'
  assume "applications_submit zodEmail now ctx inp s = (Inl e, s')"
  then show "s' = s"
    by (subst (asm) applications_submit_cases) (auto split: if_splits option.splits)
next
  fix r s'
  assume a: "applications_submit zodEmail now ctx inp s = (Inr r, s')"
  then obtain v where v: "columnValues (submitValues inp) = Some v"
    and up: "DATABASE_URL s"
    by (subst (asm) applications_submit_cases) (auto split: if_splits option.splits)
  define row where "row = insertedRow (applications_id_seq (pg s)) now v"
  have res: "r = \<lparr> success = True, newId = applications_id_seq (pg s) \<rparr>"
    and st: "s' = s\<lparr>pg := (pg s)\<lparr>applications := applications (pg s) @ [row],
                               applications_id_seq := applications_id_seq (pg s) + 1\<rparr>\<rparr>"
    using a v unfolding row_def
    by (subst (asm) applications_submit_cases, simp split: if_splits)+
  have i: "appId row = applications_id_seq (pg s)" by (simp add: row_def insertedRow_def)
  have r1: "r = \<lparr> success = True, newId = appId row \<rparr>" using res i by simp
  have r2: "DATABASE_URL s'" using up by (simp add: st)
  have r3: "applications (pg s') = applications (pg s) @ [row]" by (simp add: st)
  have ns: "new_status v = None"
    using columnValues_Some(11) [OF v] by (simp add: submitValues_def)
  have r4: "status row = pendente" by (simp add: row_def insertedRow_def ns)
  have em: "nullable (varchar 320) (orNull (in_email inp)) = Some (email row)"
    using columnValues_Some(3) [OF v] by (simp add: submitValues_def row_def insertedRow_def)
  have nt: "nullable pg_text (orNull (in_notes inp)) = Some (appNotes row)"
    using columnValues_Some(7) [OF v] by (simp add: submitValues_def row_def insertedRow_def)
  have r5: "email row = None \<longleftrightarrow> in_email inp = None \<or> in_email inp = Some ''''"
  proof -
    have "email row = None \<longleftrightarrow> nullable (varchar 320) (orNull (in_email inp)) = Some None"
      using em by auto
    then show ?thesis by (simp only: nullable_None_iff orNull_None_iff)
  qed
  have r6: "\<exists>x'. varchar 320 x = Some x' \<and> email row = Some x'"
    if "in_email inp = Some x \<and> x \<noteq> ''''" for x
  proof -
    have "nullable (varchar 320) (Some x) = Some (email row)"
      using em that by (simp add: orNull_Some)
    then show ?thesis by (auto simp: nullable_def)
  qed
  have r7: "appNotes row = None \<longleftrightarrow> in_notes inp = None \<or> in_notes inp = Some ''''"
  proof -
    have "appNotes row = None \<longleftrightarrow> nullable pg_text (orNull (in_notes inp)) = Some None"
      using nt by auto
    then show ?thesis by (simp only: nullable_None_iff orNull_None_iff)
  qed
  have r8: "appNotes row = Some x" if "in_notes inp = Some x \<and> x \<noteq> ''''" for x
  proof -
    have "nullable pg_text (Some x) = Some (appNotes row)"
      using nt that by (simp add: orNull_Some)
    then show ?thesis by (auto simp: nullable_def pg_text_def split: if_splits)
  qed
  have r9: "varchar 255 (in_fullName inp) = Some (fullName row)"
    "varchar 20 (in_phone inp) = Some (phone row)"
    "varchar 14 (in_cpf inp) = Some (cpf row)"
    using columnValues_Some(1,2,4) [OF v]
    by (simp_all add: submitValues_def row_def insertedRow_def)
  have r10: "vehicleTypes row = in_vehicleTypes inp"
    "experienceYears row = in_experienceYears inp" "createdAt row = now"
    using columnValues_Some(9,10) [OF v]
    by (simp_all add: submitValues_def row_def insertedRow_def)
  show "\<exists>row.
         r = \<lparr> success = True, newId = appId row \<rparr> \<and>
         DATABASE_URL s' \<and>
         applications (pg s') = applications (pg s) @ [row] \<and>
         appId row = applications_id_seq (pg s) \<and>
         status row = pendente \<and>
         (email row = None \<longleftrightarrow> in_email inp = None \<or> in_email inp = Some '''') \<and>
         (\<forall>x. in_email inp = Some x \<and> x \<noteq> '''' \<longrightarrow>
              (\<exists>x'. varchar 320 x = Some x' \<and> email row = Some x')) \<and>
         (appNotes row = None \<longleftrightarrow> in_notes inp = None \<or> in_notes inp = Some '''') \<and>
         (\<forall>x. in_notes inp = Some x \<and> x \<noteq> '''' \<longrightarrow> appNotes row = Some x) \<and>
         varchar 255 (in_fullName inp) = Some (fullName row) \<and>
         varchar 20 (in_phone inp) = Some (phone row) \<and>
         varchar 14 (in_cpf inp) = Some (cpf row) \<and>
         vehicleTypes row = in_vehicleTypes inp \<and>
         experienceYears row = in_experienceYears inp \<and>
         createdAt row = now"
  proof (intro exI [of _ row] conjI allI impI)
    fix x assume "in_email inp = Some x \<and> x \<noteq> ''''"
    then show "\<exists>x'. varchar 320 x = Some x' \<and> email row = Some x'" by (rule r6)
  next
    fix x assume "in_notes inp = Some x \<and> x \<noteq> ''''"
    then show "appNotes row = Some x" by (rule r8)
  qed (rule r1 r2 r3 i r4 r5 r7 r9 r10)+
qed

lemma sampleInput_columnValues:
  "columnValues (submitValues (sampleInput\<lparr> in_email := e, in_notes := None,
      in_vehicleTypes := vts \<rparr>)) \<noteq> None"
  if "e = None \<or> e = Some ''''"
  using that
  by (auto simp: columnValues_def submitValues_def sampleInput_def varchar_def nullable_def
      orNull_def int4_def)

theorem submit_public_pendente_witness:
  "(\<exists>row s'. applications_submit sampleEmailTest 5000 createPublicContext
               (sampleInput\<lparr> in_email := Some '''', in_notes := None \<rparr>) sampleServer
             = (Inr \<lparr> success = True, newId = appId row \<rparr>, s') \<and>
           applications (pg s') = [sampleApplication, secondApplication, row] \<and>
           status row = pendente \<and> email row = None \<and> appNotes row = None) \<and>
   \<not> (\<exists>r s'. applications_submit sampleEmailTest 5000 createPublicContext
               (sampleInput\<lparr> in_experienceYears := 3000000000 \<rparr>) sampleServer = (Inr r, s'))"
proof -
  define inp where "inp = sampleInput\<lparr> in_email := Some '''', in_notes := None \<rparr>"
  define big where "big = sampleInput\<lparr> in_experienceYears := 3000000000 \<rparr>"
  have c: "isValidCPF ''529.982.247-25''" by code_simp
  have v: "submitInputValid sampleEmailTest inp \<and> DATABASE_URL sampleServer"
    by (simp add: submitInputValid_def inp_def sampleInput_def emailValid_def
        vehicleTypesValid_def c sampleServer_def)
  have "columnValues (submitValues (sampleInput\<lparr> in_email := Some '''', in_notes := None,
      in_vehicleTypes := in_vehicleTypes sampleInput \<rparr>)) \<noteq> None"
    by (rule sampleInput_columnValues) simp
  then have cv: "columnValues (submitValues inp) \<noteq> None" by (simp add: inp_def)
  have e: "in_email inp = Some ''''" "in_notes inp = None" by (simp_all add: inp_def)
  have rows: "applications (pg sampleServer) = [sampleApplication, secondApplication]"
    by (simp add: sampleServer_def)
  have nb: "columnValues (submitValues big) = None"
    by (simp add: columnValues_def submitValues_def big_def sampleInput_def int4_def
        bind_eq_None_conv)
  obtain r s' where ok: "applications_submit sampleEmailTest 5000 createPublicContext inp
      sampleServer = (Inr r, s')"
    using submit_public_pendente [of sampleEmailTest 5000 createPublicContext inp sampleServer]
      v cv by blast
  then obtain row where "r = \<lparr> success = True, newId = appId row \<rparr>"
    "applications (pg s') = applications (pg sampleServer) @ [row]"
    "status row = pendente" "email row = None" "appNotes row = None"
    using submit_public_pendente [of sampleEmailTest 5000 createPublicContext inp sampleServer]
      e by blast
  then have 1: "\<exists>row s'. applications_submit sampleEmailTest 5000 createPublicContext inp
        sampleServer = (Inr \<lparr> success = True, newId = appId row \<rparr>, s') \<and>
      applications (pg s') = [sampleApplication, secondApplication, row] \<and>
      status row = pendente \<and> email row = None \<and> appNotes row = None"
    using ok rows by auto
  have 2: "\<not> (\<exists>r s'. applications_submit sampleEmailTest 5000 createPublicContext big
      sampleServer = (Inr r, s'))"
    using submit_public_pendente [of sampleEmailTest 5000 createPublicContext big sampleServer]
      nb by blast
  show ?thesis using 1 2 unfolding inp_def big_def by blast
qed

text \<open>
  C4, amended. The vehicle types of a submission are accepted exactly when the array
  is not empty; its strings are not compared with the tags \<open>moto\<close>, \<open>carro\<close>, \<open>van\<close>,
  \<open>caminhao\<close>, \<open>onibus\<close>. A submission passes the input schema if and only if its
  array of vehicle types is not empty and the same submission with the array
  \<open>[moto]\<close> passes; a submission with an empty array is rejected.
\<close>

theorem submit_vehicleTypes_nonempty:
  "(submitInputValid zodEmail inp \<longleftrightarrow>
      in_vehicleTypes inp \<noteq> [] \<and>
      submitInputValid zodEmail (inp\<lparr> in_vehicleTypes := [''moto''] \<rparr>)) \<and>
   (in_vehicleTypes inp = [] \<longrightarrow>
      applications_submit zodEmail now ctx inp s = (Inl ZodError, s))"
proof -
  have v: "vehicleTypesValid vts \<longleftrightarrow> vts \<noteq> []" for vts
    by (cases vts) (simp_all add: vehicleTypesValid_def)
  have 1: "submitInputValid zodEmail inp \<longleftrightarrow>
      in_vehicleTypes inp \<noteq> [] \<and>
      submitInputValid zodEmail (inp\<lparr> in_vehicleTypes := [''moto''] \<rparr>)"
    unfolding submitInputValid_def v by auto
  have 2: "applications_submit zodEmail now ctx inp s = (Inl ZodError, s)"
    if "in_vehicleTypes inp = []"
    using that 1 by (simp add: applications_submit_def publicProcedure_def)
  show ?thesis using 1 2 by blast
qed

theorem submit_vehicleTypes_nonempty_witness:
  "applications_submit sampleEmailTest 5000 createPublicContext
      (sampleInput\<lparr> in_vehicleTypes := [] \<rparr>) sampleServer = (Inl ZodError, sampleServer) \<and>
   submitInputValid sampleEmailTest sampleInput"
proof -
  have c: "isValidCPF ''529.982.247-25''" by code_simp
  have m: "submitInputValid sampleEmailTest (sampleInput\<lparr> in_vehicleTypes := [''moto''] \<rparr>)"
    by (simp add: submitInputValid_def sampleInput_def emailValid_def vehicleTypesValid_def c
        sampleEmailTest_def)
  have n: "in_vehicleTypes sampleInput \<noteq> []" by (simp add: sampleInput_def)
  have e: "in_vehicleTypes (sampleInput\<lparr> in_vehicleTypes := [] \<rparr>) = []" by simp
  show ?thesis
    using submit_vehicleTypes_nonempty [of sampleEmailTest sampleInput]
      submit_vehicleTypes_nonempty [of sampleEmailTest "sampleInput\<lparr> in_vehicleTypes := [] \<rparr>"
        5000 createPublicContext sampleServer] m n e
    by blast
qed

theorem submit_unknown_vehicleType_counterexample:
  "fst (applications_submit sampleEmailTest 5000 createPublicContext
          (sampleInput\<lparr> in_vehicleTypes := [''aviao''] \<rparr>) sampleServer)
     = Inr \<lparr> success = True, newId = 3 \<rparr> \<and>
   ''aviao'' \<notin> set vehicleTags"
proof -
  have c: "isValidCPF ''529.982.247-25''" by code_simp
  have m: "submitInputValid sampleEmailTest (sampleInput\<lparr> in_vehicleTypes := [''aviao''] \<rparr>)"
    by (simp add: submitInputValid_def sampleInput_def emailValid_def vehicleTypesValid_def c
        sampleEmailTest_def)
  have u: "DATABASE_URL sampleServer" "applications_id_seq (pg sampleServer) = 3"
    by (simp_all add: sampleServer_def)
  have "columnValues (submitValues (sampleInput\<lparr> in_vehicleTypes := [''aviao''] \<rparr>)) \<noteq> None"
    by (auto simp: columnValues_def submitValues_def sampleInput_def varchar_def nullable_def
        orNull_def int4_def pg_text_def)
  then have "fst (applications_submit sampleEmailTest 5000 createPublicContext
          (sampleInput\<lparr> in_vehicleTypes := [''aviao''] \<rparr>) sampleServer)
     = Inr \<lparr> success = True, newId = 3 \<rparr>"
    by (subst applications_submit_cases) (auto simp: m u)
  moreover have "''aviao'' \<notin> set vehicleTags" by (simp add: vehicleTags_def)
  ultimately show ?thesis by blast
qed

end
